theory Spec2Isabelle
  imports Complex_Main "HOL-Library.Sublist" "HOL-Library.AList"
begin

section \<open>Data model of the experiment manager\<close>

text \<open>
  The development follows \<^verbatim>\<open>experiment_manager.py\<close>. Everything outside that file is a
  parameter: the peers behind the three \<^verbatim>\<open>ComponentInterface\<close> channels, Python's
  floating-point arithmetic, numpy's aggregations, the type-compatibility check of
  \<^verbatim>\<open>zuper_typing\<close> and the rendering and video collaborators. A theorem proved for
  every value of these parameters holds for the real ones.

  A channel is named by its nickname, a path is the list of its components, and an opaque
  payload (map data, observations, commands, robot configuration) has the type \<open>'d\<close>.
  Python floats have the type \<open>'f\<close>.
\<close>

type_synonym chan = string
type_synonym path = "string list"

text \<open>The exceptions that the program raises, wraps or lets through.\<close>

datatype exn =
    PeerFailure string
  | KeyError string
  | AttributeError
  | OSError
  | ObservationsMismatch
  | CommandsMismatch
  | RobotCountMismatch nat nat
  | TooManyFailures int
  | InvalidSubmission exn
  | InvalidEvaluator exn

datatype 'd ScenarioRobotSpec =
  ScenarioRobotSpec (configuration: 'd) (playable: bool)

datatype 'd Scenario =
  Scenario (scenario_name: string) (environment: 'd)
           (robots: "(string \<times> 'd ScenarioRobotSpec) list")

text \<open>
  What a reply carries. \<open>RobotObservations\<close> has the attribute \<^verbatim>\<open>observations\<close>,
  \<open>SimulationState\<close> the attribute \<^verbatim>\<open>done\<close>; reading an attribute that the object
  lacks raises \<open>AttributeError\<close>.
\<close>

datatype 'd rdata =
    NoData
  | Opaque 'd
  | RobotObservations 'd
  | SimulationState bool
  | ScenarioData "'d Scenario"

datatype 'd MsgReceived = MsgReceived (topic: string) (data: "'d rdata")

text \<open>What the program sends with a topic.\<close>

datatype ('f, 'd) payload =
    Nothing
  | IntValue int
  | StrValue string
  | Forwarded 'd
  | SetMap 'd
  | SpawnRobot string 'd bool
  | EpisodeStart string
  | GetRobotState string 'f
  | GetRobotObservations string 'f
  | SetRobotCommands string "'d rdata" 'f
  | Step 'f

text \<open>
  An event is one exchange on a channel (topic, payload, and the reply or the exception
  that came back), the protocol handshake of a channel, the closing of a channel, or a
  timing record written to the log.
\<close>

datatype ('f, 'd) event =
    Exchange chan string "('f, 'd) payload" "exn + 'd MsgReceived"
  | Handshake chan
  | Closed chan
  | TimingInformation nat

datatype ('f, 'd) node = Dir | File "('f, 'd) event list"

text \<open>A value given to \<^verbatim>\<open>cie.set_score\<close>.\<close>

datatype 'f score =
    PerEpisodes "(string \<times> (string \<times> 'f) list) list"
  | Number 'f

text \<open>
  The world outside the program: the sequence of events on the channels so far, the file
  system, for each channel the file that receives a carbon copy of its traffic
  (\<^verbatim>\<open>ComponentInterface.cc\<close>), and the calls of \<^verbatim>\<open>cie.set_score\<close> in order.
\<close>

record ('f, 'd) world =
  trace :: "('f, 'd) event list"
  fs :: "path \<Rightarrow> ('f, 'd) node option"
  cc :: "chan \<Rightarrow> path option"
  scores :: "(string \<times> 'f score) list"

text \<open>
  The parameters. \<open>peer\<close> answers an exchange given everything that happened before it:
  \<open>Inl\<close> is the exception that the channel raises (a timeout, an aborted node, a reply of
  an unexpected topic or number), \<open>Inr\<close> the reply received.
\<close>

record ('f, 'd) env =
  fzero :: 'f
  fadd :: "'f \<Rightarrow> 'f \<Rightarrow> 'f"
  fge :: "'f \<Rightarrow> 'f \<Rightarrow> bool"
  peer :: "('f, 'd) event list \<Rightarrow> chan \<Rightarrow> string \<Rightarrow> ('f, 'd) payload \<Rightarrow> exn + 'd MsgReceived"

section \<open>Sequencing of fallible, effectful steps\<close>

type_synonym ('w, 'a) action = "'w \<Rightarrow> (exn + 'a) \<times> 'w"

definition and_then :: "('w, 'a) action \<Rightarrow> ('a \<Rightarrow> ('w, 'b) action) \<Rightarrow> ('w, 'b) action" where
  "and_then m f w = (case m w of (Inl e, w') \<Rightarrow> (Inl e, w') | (Inr a, w') \<Rightarrow> f a w')"

definition try_except :: "('w, 'a) action \<Rightarrow> (exn \<Rightarrow> ('w, 'a) action) \<Rightarrow> ('w, 'a) action" where
  "try_except m h w = (case m w of (Inl e, w') \<Rightarrow> h e w' | (Inr a, w') \<Rightarrow> (Inr a, w'))"

definition raise :: "exn \<Rightarrow> ('w, 'a) action" where
  "raise e w = (Inl e, w)"

definition return :: "'a \<Rightarrow> ('w, 'a) action" where
  "return a w = (Inr a, w)"

fun for_each :: "'a list \<Rightarrow> ('a \<Rightarrow> ('w, unit) action) \<Rightarrow> ('w, unit) action" where
  "for_each [] f w = (Inr (), w)"
| "for_each (x # xs) f w =
     (case f x w of (Inl e, w') \<Rightarrow> (Inl e, w') | (Inr _, w') \<Rightarrow> for_each xs f w')"

section \<open>Channel operations\<close>

text \<open>
  A file system is a map from paths to nodes. \<open>append_file po e f\<close> is the file system
  \<open>f\<close> after the entry \<open>e\<close> has been written to the file at \<open>po\<close>, if there is one.
\<close>

definition append_file :: "path option \<Rightarrow> ('f, 'd) event \<Rightarrow> (path \<Rightarrow> ('f, 'd) node option) \<Rightarrow> (path \<Rightarrow> ('f, 'd) node option)" where
  "append_file po e f q =
     (case po of
        None \<Rightarrow> f q
      | Some p \<Rightarrow>
          if q = p then (case f p of Some (File es) \<Rightarrow> Some (File (es @ [e])) | n \<Rightarrow> n)
          else f q)"

text \<open>
  \<^verbatim>\<open>ci.write_topic_and_expect(topic, data, expect=...)\<close>: the exchange is recorded in the
  trace and copied to the channel's carbon-copy file; the reply or the exception is what
  the peer gives.
\<close>

definition write_topic_and_expect ::
  "('f, 'd) env \<Rightarrow> chan \<Rightarrow> string \<Rightarrow> ('f, 'd) payload \<Rightarrow> (('f, 'd) world, 'd MsgReceived) action" where
  "write_topic_and_expect E c tp d w =
     (let r = peer E (trace w) c tp d; e = Exchange c tp d r
      in (r, w\<lparr>trace := trace w @ [e], fs := append_file (cc w c) e (fs w)\<rparr>))"

definition write_topic_and_expect_zero ::
  "('f, 'd) env \<Rightarrow> chan \<Rightarrow> string \<Rightarrow> ('f, 'd) payload \<Rightarrow> (('f, 'd) world, unit) action" where
  "write_topic_and_expect_zero E c tp d =
     and_then (write_topic_and_expect E c tp d) (\<lambda>_. return ())"

section \<open>The episode step driver: \<^verbatim>\<open>run_episode\<close>\<close>

text \<open>
  \<^verbatim>\<open>scenario.robots\<close> is a dict: the association list has distinct keys, and iterating
  over the dict goes through the keys in the order of the list.
\<close>

definition playable_robots :: "'d Scenario \<Rightarrow> string list" where
  "playable_robots scenario =
     filter (\<lambda>n. case map_of (robots scenario) n of Some c \<Rightarrow> playable c | None \<Rightarrow> False)
            (map fst (robots scenario))"

definition not_playable_robots :: "'d Scenario \<Rightarrow> string list" where
  "not_playable_robots scenario =
     filter (\<lambda>n. case map_of (robots scenario) n of Some c \<Rightarrow> \<not> playable c | None \<Rightarrow> False)
            (map fst (robots scenario))"

definition playable_robots2agent :: "'d Scenario \<Rightarrow> chan list \<Rightarrow> string \<Rightarrow> chan option" where
  "playable_robots2agent scenario agents = map_of (zip (playable_robots scenario) agents)"

definition observations_of :: "'d MsgReceived \<Rightarrow> ('w, 'd) action" where
  "observations_of recv =
     (case data recv of RobotObservations obs \<Rightarrow> return obs | _ \<Rightarrow> raise AttributeError)"

definition done_of :: "'d MsgReceived \<Rightarrow> ('w, bool) action" where
  "done_of recv =
     (case data recv of SimulationState d \<Rightarrow> return d | _ \<Rightarrow> raise AttributeError)"

text \<open>
  The exchange with the agent, inside \<^verbatim>\<open>try: ... except BaseException as e: raise
  dc.InvalidSubmission(msg) from e\<close>. The argument \<^verbatim>\<open>recv.data.observations\<close> is
  evaluated inside the \<^verbatim>\<open>try\<close>.
\<close>

definition agent_exchange ::
  "('f, 'd) env \<Rightarrow> chan \<Rightarrow> 'd MsgReceived \<Rightarrow> (('f, 'd) world, 'd MsgReceived) action" where
  "agent_exchange E agent recv =
     try_except
       (and_then (observations_of recv) (\<lambda>obs.
        and_then (write_topic_and_expect_zero E agent ''observations'' (Forwarded obs)) (\<lambda>_.
        write_topic_and_expect E agent ''get_commands'' Nothing)))
       (\<lambda>e. raise (InvalidSubmission e))"

text \<open>The body of \<^verbatim>\<open>for robot_name in playable_robots\<close>.\<close>

definition playable_robot_step ::
  "('f, 'd) env \<Rightarrow> chan \<Rightarrow> (string \<Rightarrow> chan option) \<Rightarrow> 'f \<Rightarrow> string \<Rightarrow> (('f, 'd) world, unit) action" where
  "playable_robot_step E sim_ci r2a t_effective robot_name =
     and_then (case r2a robot_name of None \<Rightarrow> raise (KeyError robot_name) | Some a \<Rightarrow> return a) (\<lambda>agent.
     and_then (write_topic_and_expect E sim_ci ''get_robot_state'' (GetRobotState robot_name t_effective)) (\<lambda>_.
     and_then (write_topic_and_expect E sim_ci ''get_robot_performance'' (StrValue robot_name)) (\<lambda>_.
     and_then (write_topic_and_expect E sim_ci ''get_robot_observations'' (GetRobotObservations robot_name t_effective)) (\<lambda>recv.
     and_then (agent_exchange E agent recv) (\<lambda>r.
     write_topic_and_expect_zero E sim_ci ''set_robot_commands''
        (SetRobotCommands robot_name (data r) t_effective))))))"

text \<open>The body of \<^verbatim>\<open>for robot_name in not_playable_robots\<close>.\<close>

definition not_playable_robot_step ::
  "('f, 'd) env \<Rightarrow> chan \<Rightarrow> 'f \<Rightarrow> string \<Rightarrow> (('f, 'd) world, unit) action" where
  "not_playable_robot_step E sim_ci t_effective robot_name =
     and_then (write_topic_and_expect E sim_ci ''get_robot_state'' (GetRobotState robot_name t_effective))
              (\<lambda>_. return ())"

text \<open>The two \<^verbatim>\<open>for\<close> loops of one iteration of the step loop.\<close>

definition robots_phase ::
  "('f, 'd) env \<Rightarrow> chan \<Rightarrow> string list \<Rightarrow> string list \<Rightarrow> (string \<Rightarrow> chan option) \<Rightarrow> 'f \<Rightarrow> (('f, 'd) world, unit) action" where
  "robots_phase E sim_ci pl npl r2a t_effective =
     and_then (for_each pl (playable_robot_step E sim_ci r2a t_effective)) (\<lambda>_.
     for_each npl (not_playable_robot_step E sim_ci t_effective))"

text \<open>
  \<^verbatim>\<open>log_timing_info\<close> writes the timing record to \<^verbatim>\<open>sim_ci._cc\<close>, the carbon-copy
  file of the simulator channel. The record is keyed by \<^verbatim>\<open>steps\<close>; the durations that
  it holds are wall-clock measurements and are not modelled.
\<close>

definition log_timing_info :: "nat \<Rightarrow> chan \<Rightarrow> (('f, 'd) world, unit) action" where
  "log_timing_info tt sim_ci w =
     (case cc w sim_ci of
        None \<Rightarrow> (Inl AttributeError, w)
      | Some p \<Rightarrow> (Inr (), w\<lparr>fs := append_file (Some p) (TimingInformation tt) (fs w)\<rparr>))"

datatype 'f loop_ctl = Break | Continue 'f

text \<open>
  One iteration of \<^verbatim>\<open>while True\<close>, after the test of the episode length: the robots,
  the global state, and unless the simulator is done the physics step and the timing
  record. \<open>Continue t\<close> carries the new \<^verbatim>\<open>current_sim_time\<close>.
\<close>

definition iteration ::
  "('f, 'd) env \<Rightarrow> chan \<Rightarrow> string list \<Rightarrow> string list \<Rightarrow> (string \<Rightarrow> chan option) \<Rightarrow> 'f \<Rightarrow> nat \<Rightarrow> 'f
     \<Rightarrow> (('f, 'd) world, 'f loop_ctl) action" where
  "iteration E sim_ci pl npl r2a physics_dt steps current_sim_time =
     and_then (robots_phase E sim_ci pl npl r2a current_sim_time) (\<lambda>_.
     and_then (write_topic_and_expect E sim_ci ''get_sim_state'' Nothing) (\<lambda>recv.
     and_then (done_of recv) (\<lambda>done.
       if done then return Break
       else
         and_then (write_topic_and_expect_zero E sim_ci ''step'' (Step (fadd E current_sim_time physics_dt))) (\<lambda>_.
         and_then (log_timing_info steps sim_ci) (\<lambda>_.
         return (Continue (fadd E current_sim_time physics_dt)))))))"

text \<open>
  The loop \<^verbatim>\<open>while True\<close>. It need not end, so its result is an option: \<open>None\<close> is a
  loop that never returns. \<^verbatim>\<open>steps\<close> is never incremented by the source.
\<close>

partial_function (option) step_loop ::
  "('f, 'd) env \<Rightarrow> chan \<Rightarrow> string list \<Rightarrow> string list \<Rightarrow> (string \<Rightarrow> chan option) \<Rightarrow> 'f \<Rightarrow> 'f \<Rightarrow> nat \<Rightarrow> 'f
     \<Rightarrow> ('f, 'd) world \<Rightarrow> ((exn + 'f) \<times> ('f, 'd) world) option" where
  "step_loop E sim_ci pl npl r2a physics_dt episode_length_s steps current_sim_time w =
     (if fge E current_sim_time episode_length_s then Some (Inr current_sim_time, w)
      else
        (case iteration E sim_ci pl npl r2a physics_dt steps current_sim_time w of
           (Inl e, w') \<Rightarrow> Some (Inl e, w')
         | (Inr Break, w') \<Rightarrow> Some (Inr current_sim_time, w')
         | (Inr (Continue t), w') \<Rightarrow>
             step_loop E sim_ci pl npl r2a physics_dt episode_length_s steps t w'))"

text \<open>The messages before the loop: clear, map, robots, episode start.\<close>

definition episode_setup ::
  "('f, 'd) env \<Rightarrow> chan \<Rightarrow> chan list \<Rightarrow> string \<Rightarrow> 'd Scenario \<Rightarrow> (('f, 'd) world, unit) action" where
  "episode_setup E sim_ci agents episode_name scenario =
     and_then (write_topic_and_expect_zero E sim_ci ''clear'' Nothing) (\<lambda>_.
     and_then (write_topic_and_expect_zero E sim_ci ''set_map'' (SetMap (environment scenario))) (\<lambda>_.
     and_then (for_each (robots scenario) (\<lambda>(robot_name, robot_conf).
                 write_topic_and_expect_zero E sim_ci ''spawn_robot''
                   (SpawnRobot robot_name (configuration robot_conf) (playable robot_conf)))) (\<lambda>_.
     and_then (write_topic_and_expect_zero E sim_ci ''episode_start'' (EpisodeStart episode_name)) (\<lambda>_.
     for_each agents (\<lambda>agent.
        write_topic_and_expect_zero E agent ''episode_start'' (EpisodeStart episode_name))))))"

definition run_episode ::
  "('f, 'd) env \<Rightarrow> chan \<Rightarrow> chan list \<Rightarrow> 'f \<Rightarrow> string \<Rightarrow> 'd Scenario \<Rightarrow> 'f
     \<Rightarrow> ('f, 'd) world \<Rightarrow> ((exn + 'f) \<times> ('f, 'd) world) option" where
  "run_episode E sim_ci agents physics_dt episode_name scenario episode_length_s w =
     (case episode_setup E sim_ci agents episode_name scenario w of
        (Inl e, w') \<Rightarrow> Some (Inl e, w')
      | (Inr _, w') \<Rightarrow>
          step_loop E sim_ci (playable_robots scenario) (not_playable_robots scenario)
            (playable_robots2agent scenario agents) physics_dt episode_length_s 0 (fzero E) w')"

section \<open>Configuration and collaborators of \<^verbatim>\<open>main\<close>\<close>

record 'f MyConfig =
  episode_length_s :: 'f
  min_episode_length_s :: 'f
  seed :: int
  physics_dt :: 'f
  episodes_per_scenario :: int
  max_failures :: int
  agent_in :: string
  agent_out :: string
  sim_in :: string
  sim_out :: string
  sm_in :: string
  sm_out :: string
  timeout_initialization :: int
  timeout_regular :: int

text \<open>
  A node protocol: the declared type of each input and output topic. Python types have
  the type \<open>'y\<close>.
\<close>

record 'y protocol =
  inputs :: "string \<Rightarrow> 'y option"
  outputs :: "string \<Rightarrow> 'y option"

text \<open>
  The object that \<^verbatim>\<open>can_be_used_as2\<close> returns. The source reads its attribute
  \<^verbatim>\<open>result\<close> in the first check and tests the object itself in the second
  (\<^verbatim>\<open>if not r\<close>); \<open>truth_value\<close> is what Python gives for \<^verbatim>\<open>bool(r)\<close>.
\<close>

record CanBeUsed =
  result :: bool
  truth_value :: bool

text \<open>
  What \<^verbatim>\<open>main\<close> uses and this repository does not define:
  \<^item> \<open>load_config\<close>: the outcome of \<^verbatim>\<open>env_as_yaml\<close> followed by \<^verbatim>\<open>object_from_ipce\<close>;
  \<^item> \<open>node_protocol\<close>: the outcome of \<^verbatim>\<open>ci._get_node_protocol\<close>, \<open>None\<close> for a node
    without reflection;
  \<^item> \<open>annotations\<close>: \<^verbatim>\<open>T.__annotations__\<close> of a declared message type;
  \<^item> \<open>can_be_used_as2\<close> of \<^verbatim>\<open>zuper_typing\<close>;
  \<^item> \<open>read_and_draw\<close>: from the recorded log to, for each rule, its metrics (a tuple of
    names and the total of the metric);
  \<^item> \<open>make_video1\<close>, which may raise;
  \<^item> numpy's \<^verbatim>\<open>mean\<close>, \<^verbatim>\<open>median\<close>, \<^verbatim>\<open>min\<close> and \<^verbatim>\<open>max\<close> on a list of floats.
\<close>

record ('f, 'd, 'y) collaborators =
  load_config :: "exn + 'f MyConfig"
  node_protocol :: "chan \<Rightarrow> exn + 'y protocol option"
  annotations :: "'y \<Rightarrow> string \<Rightarrow> 'y option"
  can_be_used_as2 :: "'y \<Rightarrow> 'y \<Rightarrow> CanBeUsed"
  read_and_draw :: "('f, 'd) event list \<Rightarrow> exn + (string \<times> (string list \<times> 'f) list) list"
  make_video1 :: "('f, 'd) event list \<Rightarrow> exn + unit"
  np_mean :: "'f list \<Rightarrow> 'f"
  np_median :: "'f list \<Rightarrow> 'f"
  np_min :: "'f list \<Rightarrow> 'f"
  np_max :: "'f list \<Rightarrow> 'f"

text \<open>The three channels that \<^verbatim>\<open>main\<close> opens, by nickname.\<close>

abbreviation main_agent_ci :: chan where "main_agent_ci \<equiv> ''agent''"
abbreviation main_sim_ci :: chan where "main_sim_ci \<equiv> ''simulator''"
abbreviation main_sm_ci :: chan where "main_sm_ci \<equiv> ''scenario_maker''"

definition lift :: "exn + 'a \<Rightarrow> ('w, 'a) action" where
  "lift r w = (r, w)"

definition get_node_protocol ::
  "('f, 'd, 'y) collaborators \<Rightarrow> chan \<Rightarrow> (('f, 'd) world, 'y protocol option) action" where
  "get_node_protocol X c w = (node_protocol X c, w\<lparr>trace := trace w @ [Handshake c]\<rparr>)"

definition close :: "chan \<Rightarrow> (('f, 'd) world, unit) action" where
  "close c w = (Inr (), w\<lparr>trace := trace w @ [Closed c]\<rparr>)"

section \<open>The compatibility checker\<close>

definition lookup :: "(string \<Rightarrow> 'a option) \<Rightarrow> string \<Rightarrow> exn + 'a" where
  "lookup m k = (case m k of None \<Rightarrow> Inl (KeyError k) | Some v \<Rightarrow> Inr v)"

definition bind_sum :: "exn + 'a \<Rightarrow> ('a \<Rightarrow> exn + 'b) \<Rightarrow> exn + 'b" where
  "bind_sum r f = (case r of Inl e \<Rightarrow> Inl e | Inr a \<Rightarrow> f a)"

text \<open>
  \<^verbatim>\<open>check_compatibility_between_agent_and_sim\<close>. Without the agent's protocol the check
  is skipped (the source then overwrites the agent's expected protocol with the
  simulator's types, which nothing else in this file reads).
\<close>

definition check_compatibility_between_agent_and_sim ::
  "('f, 'd, 'y) collaborators \<Rightarrow> 'y protocol option \<Rightarrow> 'y protocol option \<Rightarrow> exn + unit" where
  "check_compatibility_between_agent_and_sim X agent_protocol sim_protocol =
     (case sim_protocol of
        None \<Rightarrow> Inl AttributeError
      | Some sp \<Rightarrow>
          bind_sum (lookup (outputs sp) ''robot_observations'') (\<lambda>ro.
          bind_sum (lookup (annotations X ro) ''observations'') (\<lambda>type_observations_sim.
          bind_sum (lookup (inputs sp) ''set_robot_commands'') (\<lambda>src.
          bind_sum (lookup (annotations X src) ''commands'') (\<lambda>type_commands_sim.
            (case agent_protocol of
               None \<Rightarrow> Inr ()
             | Some ap \<Rightarrow>
                 bind_sum (lookup (inputs ap) ''observations'') (\<lambda>type_observations_agent.
                 bind_sum (lookup (outputs ap) ''commands'') (\<lambda>type_commands_agent.
                   if \<not> result (can_be_used_as2 X type_observations_sim type_observations_agent)
                   then Inl ObservationsMismatch
                   else if \<not> truth_value (can_be_used_as2 X type_commands_agent type_commands_sim)
                   then Inl CommandsMismatch
                   else Inr ()))))))))"

section \<open>The scenario enumerator\<close>

datatype 'd EpisodeSpec = EpisodeSpec (episode_name: string) (scenario: "'d Scenario")

text \<open>\<^verbatim>\<open>'%s' % n\<close> for a natural number.\<close>

fun string_of_nat :: "nat \<Rightarrow> string" where
  "string_of_nat n =
     (if n < 10 then [''0123456789'' ! n]
      else string_of_nat (n div 10) @ [''0123456789'' ! (n mod 10)])"

declare string_of_nat.simps [simp del]

definition episodes_of :: "int \<Rightarrow> 'd Scenario \<Rightarrow> 'd EpisodeSpec list" where
  "episodes_of n sc =
     map (\<lambda>i. EpisodeSpec (scenario_name sc @ ''-'' @ string_of_nat i) sc) [0..<nat n]"

text \<open>
  The loop of \<^verbatim>\<open>get_episodes\<close> over the generator \<^verbatim>\<open>iterate_scenarios\<close>: ask for the
  next scenario until the reply has the topic \<^verbatim>\<open>finished\<close>, then close the channel.
  The scenario source may go on forever.
\<close>

partial_function (option) iterate_scenarios ::
  "('f, 'd) env \<Rightarrow> chan \<Rightarrow> int \<Rightarrow> 'd EpisodeSpec list \<Rightarrow> ('f, 'd) world
     \<Rightarrow> ((exn + 'd EpisodeSpec list) \<times> ('f, 'd) world) option" where
  "iterate_scenarios E sm_ci n acc w =
     (case write_topic_and_expect E sm_ci ''next_scenario'' Nothing w of
        (Inl e, w') \<Rightarrow> Some (Inl e, w')
      | (Inr recv, w') \<Rightarrow>
          if topic recv = ''finished'' then Some (Inr acc, snd (close sm_ci w'))
          else (case data recv of
                  ScenarioData sc \<Rightarrow> iterate_scenarios E sm_ci n (acc @ episodes_of n sc) w'
                | _ \<Rightarrow> Some (Inl AttributeError, w')))"

definition get_episodes ::
  "('f, 'd) env \<Rightarrow> chan \<Rightarrow> int \<Rightarrow> int \<Rightarrow> ('f, 'd) world
     \<Rightarrow> ((exn + 'd EpisodeSpec list) \<times> ('f, 'd) world) option" where
  "get_episodes E sm_ci n sd w =
     (case write_topic_and_expect_zero E sm_ci ''seed'' (IntValue sd) w of
        (Inl e, w') \<Rightarrow> Some (Inl e, w')
      | (Inr _, w') \<Rightarrow> iterate_scenarios E sm_ci n [] w')"

section \<open>The file system\<close>

text \<open>
  \<^verbatim>\<open>os.path.join(d, name)\<close> is \<open>d @ [name]\<close>. A directory that is renamed or removed
  takes everything below it along; a destination that exists is replaced. The files that the rendering collaborator draws into
  the attempt directory are not modelled.
\<close>

definition path_exists :: "path \<Rightarrow> (('f, 'd) world, bool) action" where
  "path_exists p w = (Inr (fs w p \<noteq> None), w)"

definition remove_tree :: "path \<Rightarrow> (path \<Rightarrow> ('f, 'd) node option) \<Rightarrow> (path \<Rightarrow> ('f, 'd) node option)" where
  "remove_tree p f q = (if prefix p q then None else f q)"

definition make_dirs :: "path \<Rightarrow> (path \<Rightarrow> ('f, 'd) node option) \<Rightarrow> (path \<Rightarrow> ('f, 'd) node option)" where
  "make_dirs p f q = (if prefix q p \<and> f q = None then Some Dir else f q)"

definition move_tree :: "path \<Rightarrow> path \<Rightarrow> (path \<Rightarrow> ('f, 'd) node option) \<Rightarrow> (path \<Rightarrow> ('f, 'd) node option)" where
  "move_tree src dst f q =
     (if prefix dst q then f (src @ drop (length dst) q)
      else if prefix src q then None else f q)"

definition create_file :: "path \<Rightarrow> (path \<Rightarrow> ('f, 'd) node option) \<Rightarrow> (path \<Rightarrow> ('f, 'd) node option)" where
  "create_file p f q = (if q = p then Some (File []) else f q)"

definition rmtree :: "path \<Rightarrow> (('f, 'd) world, unit) action" where
  "rmtree p w =
     (case fs w p of
        Some Dir \<Rightarrow> (Inr (), w\<lparr>fs := remove_tree p (fs w)\<rparr>)
      | _ \<Rightarrow> (Inl OSError, w))"

definition is_file :: "('f, 'd) node option \<Rightarrow> bool" where
  "is_file n = (case n of Some (File _) \<Rightarrow> True | _ \<Rightarrow> False)"

definition makedirs :: "path \<Rightarrow> (('f, 'd) world, unit) action" where
  "makedirs p w =
     (if fs w p \<noteq> None \<or> list_ex (\<lambda>q. is_file (fs w q)) (prefixes p) then (Inl OSError, w)
      else (Inr (), w\<lparr>fs := make_dirs p (fs w)\<rparr>))"

definition open_wb :: "path \<Rightarrow> (('f, 'd) world, unit) action" where
  "open_wb p w =
     (if p \<noteq> [] \<and> fs w (butlast p) = Some Dir \<and> fs w p \<noteq> Some Dir
      then (Inr (), w\<lparr>fs := create_file p (fs w)\<rparr>)
      else (Inl OSError, w))"

definition rename :: "path \<Rightarrow> path \<Rightarrow> (('f, 'd) world, unit) action" where
  "rename src dst w =
     (if fs w src \<noteq> None \<and> dst \<noteq> [] \<and> fs w (butlast dst) = Some Dir
      then (Inr (), w\<lparr>fs := move_tree src dst (fs w)\<rparr>)
      else (Inl OSError, w))"

definition read_log :: "path \<Rightarrow> (('f, 'd) world, ('f, 'd) event list) action" where
  "read_log p w = (case fs w p of Some (File es) \<Rightarrow> (Inr es, w) | _ \<Rightarrow> (Inl OSError, w))"

definition set_cc :: "chan \<Rightarrow> path \<Rightarrow> (('f, 'd) world, unit) action" where
  "set_cc c p w = (Inr (), w\<lparr>cc := (cc w)(c \<mapsto> p)\<rparr>)"

definition set_score :: "string \<Rightarrow> 'f score \<Rightarrow> (('f, 'd) world, unit) action" where
  "set_score k v w = (Inr (), w\<lparr>scores := scores w @ [(k, v)]\<rparr>)"

section \<open>The episode orchestrator: \<^verbatim>\<open>main\<close>\<close>

text \<open>The variables of \<^verbatim>\<open>main\<close> that the episode loop changes.\<close>

record ('f, 'd) orchestrator =
  episodes :: "'d EpisodeSpec list"
  nfailures :: int
  attempt_i :: nat
  per_episode :: "(string \<times> (string \<times> 'f) list) list"
  stats :: "(string \<times> 'f) list"

fun join :: "string \<Rightarrow> string list \<Rightarrow> string" where
  "join sep [] = []"
| "join sep [x] = x"
| "join sep (x # y # ys) = x @ sep @ join sep (y # ys)"

text \<open>
  The statistics of one attempt: for each rule \<open>k\<close> and each of its metrics \<open>m\<close>, the key
  is \<^verbatim>\<open>"/".join(m)\<close>, or \<open>k\<close> when \<open>m\<close> is the empty tuple. A key set twice keeps its
  place and takes the later value, as in a dict.
\<close>

definition compute_stats :: "(string \<times> (string list \<times> 'f) list) list \<Rightarrow> (string \<times> 'f) list" where
  "compute_stats evaluated =
     fold (\<lambda>(k, metrics) acc.
             fold (\<lambda>(m, total) acc'. AList.update (if m \<noteq> [] then join ''/'' m else k) total acc')
                  metrics acc)
          evaluated []"

text \<open>
  The attempt from \<^verbatim>\<open>dn_final = ...\<close> to the test of the number of playable robots:
  directories, the log file under its temporary name, carbon copies.
\<close>

definition prepare_attempt ::
  "path \<Rightarrow> path \<Rightarrow> path \<Rightarrow> chan list \<Rightarrow> 'd EpisodeSpec \<Rightarrow> (('f, 'd) world, unit) action" where
  "prepare_attempt dn_final dn fn_tmp ags episode_spec =
     and_then (path_exists dn_final) (\<lambda>ex.
     and_then (if ex then rmtree dn_final else return ()) (\<lambda>_.
     and_then (path_exists dn) (\<lambda>ex.
     and_then (if ex then rmtree dn else return ()) (\<lambda>_.
     and_then (path_exists dn) (\<lambda>ex.
     and_then (if \<not> ex then makedirs dn else return ()) (\<lambda>_.
     and_then (open_wb fn_tmp) (\<lambda>_.
     and_then (set_cc main_agent_ci fn_tmp) (\<lambda>_.
     and_then (set_cc main_sim_ci fn_tmp) (\<lambda>_.
       let num_playable = length (filter playable (map snd (robots (scenario episode_spec))))
       in if num_playable \<noteq> length ags
          then raise (RobotCountMismatch num_playable (length ags))
          else return ())))))))))"

text \<open>
  After \<^verbatim>\<open>run_episode\<close> has returned \<open>length_s\<close>: rendering, statistics, and the
  decision between accepting the episode and counting a failure.
\<close>

definition evaluate_attempt ::
  "('f, 'd) env \<Rightarrow> ('f, 'd, 'y) collaborators \<Rightarrow> 'f MyConfig \<Rightarrow> path \<Rightarrow> path \<Rightarrow> path
     \<Rightarrow> ('f, 'd) orchestrator \<Rightarrow> 'f \<Rightarrow> (('f, 'd) world, ('f, 'd) orchestrator) action" where
  "evaluate_attempt E X cfg dn_final dn fn st length_s =
     and_then (read_log fn) (\<lambda>log.
     and_then (lift (read_and_draw X log)) (\<lambda>evaluated.
       let st1 = st\<lparr>stats := compute_stats evaluated,
                    per_episode := AList.update (episode_name (hd (episodes st)))
                                      (compute_stats evaluated) (per_episode st)\<rparr>
       in if fge E length_s (min_episode_length_s cfg) then
            and_then (lift (make_video1 X log)) (\<lambda>_.
            and_then (\<lambda>w. (Inr (), w\<lparr>fs := create_file (dn @ [''camera.mp4'']) (fs w)\<rparr>)) (\<lambda>_.
            and_then (rename dn dn_final) (\<lambda>_.
            return (st1\<lparr>episodes := tl (episodes st1), attempt_i := attempt_i st1 + 1\<rparr>))))
          else
            return (st1\<lparr>nfailures := nfailures st1 + 1, attempt_i := attempt_i st1 + 1\<rparr>)))"

text \<open>
  One pass through the body of \<^verbatim>\<open>while episodes\<close>, after the test of the failure
  counter. The \<^verbatim>\<open>finally\<close> clause closes the log and renames it whether
  \<^verbatim>\<open>run_episode\<close> returned or raised; an exception of \<^verbatim>\<open>run_episode\<close> goes on after it.
\<close>

definition episode_attempt ::
  "('f, 'd) env \<Rightarrow> ('f, 'd, 'y) collaborators \<Rightarrow> 'f MyConfig \<Rightarrow> path \<Rightarrow> path
     \<Rightarrow> ('f, 'd) orchestrator \<Rightarrow> ('f, 'd) world
     \<Rightarrow> ((exn + ('f, 'd) orchestrator) \<times> ('f, 'd) world) option" where
  "episode_attempt E X cfg log_dir attempts st w =
     (let episode_spec = hd (episodes st);
          dn_final = log_dir @ [episode_name episode_spec];
          dn = attempts @ [episode_name episode_spec @ ''.attempt'' @ string_of_nat (attempt_i st)];
          fn = dn @ [''log.gs2.cbor''];
          fn_tmp = dn @ [''log.gs2.cbor.tmp'']
      in case prepare_attempt dn_final dn fn_tmp [main_agent_ci] episode_spec w of
           (Inl e, w1) \<Rightarrow> Some (Inl e, w1)
         | (Inr _, w1) \<Rightarrow>
            (case run_episode E main_sim_ci [main_agent_ci] (physics_dt cfg)
                    (episode_name episode_spec) (scenario episode_spec) (episode_length_s cfg) w1 of
               None \<Rightarrow> None
             | Some (r, w2) \<Rightarrow>
                 Some (and_then (rename fn_tmp fn) (\<lambda>_.
                         case r of
                           Inl e \<Rightarrow> raise e
                         | Inr length_s \<Rightarrow> evaluate_attempt E X cfg dn_final dn fn st length_s) w2)))"

text \<open>The loop \<^verbatim>\<open>while episodes\<close>.\<close>

partial_function (option) episode_loop ::
  "('f, 'd) env \<Rightarrow> ('f, 'd, 'y) collaborators \<Rightarrow> 'f MyConfig \<Rightarrow> path \<Rightarrow> path
     \<Rightarrow> ('f, 'd) orchestrator \<Rightarrow> ('f, 'd) world
     \<Rightarrow> ((exn + ('f, 'd) orchestrator) \<times> ('f, 'd) world) option" where
  "episode_loop E X cfg log_dir attempts st w =
     (if episodes st = [] then Some (Inr st, w)
      else if nfailures st \<ge> max_failures cfg then Some (Inl (TooManyFailures (nfailures st)), w)
      else (case episode_attempt E X cfg log_dir attempts st w of
              None \<Rightarrow> None
            | Some (Inl e, w') \<Rightarrow> Some (Inl e, w')
            | Some (Inr st', w') \<Rightarrow> episode_loop E X cfg log_dir attempts st' w'))"

text \<open>The two \<^verbatim>\<open>seed\<close> messages at the start of the outer \<^verbatim>\<open>try\<close>.\<close>

definition seed_peers :: "('f, 'd) env \<Rightarrow> 'f MyConfig \<Rightarrow> (('f, 'd) world, unit) action" where
  "seed_peers E cfg =
     and_then (write_topic_and_expect_zero E main_sim_ci ''seed'' (IntValue (seed cfg))) (\<lambda>_.
     write_topic_and_expect_zero E main_agent_ci ''seed'' (IntValue (seed cfg)))"

text \<open>The body of the outer \<^verbatim>\<open>try\<close>.\<close>

definition main_try ::
  "('f, 'd) env \<Rightarrow> ('f, 'd, 'y) collaborators \<Rightarrow> 'f MyConfig \<Rightarrow> path \<Rightarrow> path \<Rightarrow> ('f, 'd) world
     \<Rightarrow> ((exn + ('f, 'd) orchestrator) \<times> ('f, 'd) world) option" where
  "main_try E X cfg log_dir attempts w =
     (case seed_peers E cfg w of
        (Inl e, w1) \<Rightarrow> Some (Inl e, w1)
      | (Inr _, w1) \<Rightarrow>
          (case get_episodes E main_sm_ci (episodes_per_scenario cfg) (seed cfg) w1 of
             None \<Rightarrow> None
           | Some (Inl e, w2) \<Rightarrow> Some (Inl e, w2)
           | Some (Inr eps, w2) \<Rightarrow>
               episode_loop E X cfg log_dir attempts
                 \<lparr>episodes = eps, nfailures = 0, attempt_i = 0, per_episode = [], stats = []\<rparr> w2))"

text \<open>\<^verbatim>\<open>[_[k] for _ in per_episode.values()]\<close>: a missing key raises.\<close>

fun values_of :: "string \<Rightarrow> (string \<times> (string \<times> 'f) list) list \<Rightarrow> exn + 'f list" where
  "values_of k [] = Inr []"
| "values_of k ((name, s) # rest) =
     (case map_of s k of
        None \<Rightarrow> Inl (KeyError k)
      | Some v \<Rightarrow> (case values_of k rest of Inl e \<Rightarrow> Inl e | Inr vs \<Rightarrow> Inr (v # vs)))"

text \<open>The scores after the loop: the keys are those of \<^verbatim>\<open>stats\<close>, the last statistics computed.\<close>

definition report_scores ::
  "('f, 'd, 'y) collaborators \<Rightarrow> ('f, 'd) orchestrator \<Rightarrow> (('f, 'd) world, unit) action" where
  "report_scores X st =
     and_then (set_score ''per-episodes'' (PerEpisodes (per_episode st))) (\<lambda>_.
     for_each (map fst (stats st)) (\<lambda>k.
       and_then (lift (values_of k (per_episode st))) (\<lambda>vals.
       and_then (set_score (k @ ''_mean'') (Number (np_mean X vals))) (\<lambda>_.
       and_then (set_score (k @ ''_median'') (Number (np_median X vals))) (\<lambda>_.
       and_then (set_score (k @ ''_min'') (Number (np_min X vals))) (\<lambda>_.
       set_score (k @ ''_max'') (Number (np_max X vals))))))))"

text \<open>
  What \<^verbatim>\<open>main\<close> does before the outer \<^verbatim>\<open>try\<close>, once the configuration is loaded:
  the three handshakes and the compatibility check.
\<close>

definition startup :: "('f, 'd, 'y) collaborators \<Rightarrow> (('f, 'd) world, unit) action" where
  "startup X =
     and_then (get_node_protocol X main_sm_ci) (\<lambda>_.
     and_then (get_node_protocol X main_sim_ci) (\<lambda>sim_protocol.
     and_then (get_node_protocol X main_agent_ci) (\<lambda>agent_protocol.
     lift (check_compatibility_between_agent_and_sim X agent_protocol sim_protocol))))"

text \<open>
  \<^verbatim>\<open>main\<close>. The \<^verbatim>\<open>finally\<close> clause closes the agent and the simulator; an
  \<^verbatim>\<open>InvalidSubmission\<close> goes through and any other exception is wrapped into
  \<^verbatim>\<open>InvalidEvaluator\<close>.
\<close>

definition main ::
  "('f, 'd) env \<Rightarrow> ('f, 'd, 'y) collaborators \<Rightarrow> path \<Rightarrow> path \<Rightarrow> ('f, 'd) world
     \<Rightarrow> ((exn + unit) \<times> ('f, 'd) world) option" where
  "main E X log_dir attempts w =
     (case load_config X of
        Inl e \<Rightarrow> Some (Inl e, w)
      | Inr cfg \<Rightarrow>
         (case startup X w of
            (Inl e, w1) \<Rightarrow> Some (Inl e, w1)
          | (Inr _, w1) \<Rightarrow>
             (case main_try E X cfg log_dir attempts w1 of
                None \<Rightarrow> None
              | Some (r, w2) \<Rightarrow>
                 (let w3 = snd (close main_sim_ci (snd (close main_agent_ci w2)))
                  in case r of
                       Inl (InvalidSubmission e) \<Rightarrow> Some (Inl (InvalidSubmission e), w3)
                     | Inl e \<Rightarrow> Some (Inl (InvalidEvaluator e), w3)
                     | Inr st \<Rightarrow> Some (report_scores X st w3)))))"

section \<open>The order of the messages within one step\<close>

text \<open>
  What an event says about the protocol: the channel, the topic and the robot that the
  payload names, if it names one.
\<close>

fun robot_named :: "('f, 'd) payload \<Rightarrow> string option" where
  "robot_named (StrValue n) = Some n"
| "robot_named (SpawnRobot n _ _) = Some n"
| "robot_named (GetRobotState n _) = Some n"
| "robot_named (GetRobotObservations n _) = Some n"
| "robot_named (SetRobotCommands n _ _) = Some n"
| "robot_named _ = None"

datatype sent = Sent chan string "string option" | NotAnExchange

fun about :: "('f, 'd) event \<Rightarrow> sent" where
  "about (Exchange c tp d r) = Sent c tp (robot_named d)"
| "about _ = NotAnExchange"

definition playable_order :: "chan \<Rightarrow> (string \<Rightarrow> chan option) \<Rightarrow> string \<Rightarrow> sent list" where
  "playable_order sim_ci r2a robot_name =
     (case r2a robot_name of
        None \<Rightarrow> []
      | Some agent \<Rightarrow>
         [Sent sim_ci ''get_robot_state'' (Some robot_name),
          Sent sim_ci ''get_robot_performance'' (Some robot_name),
          Sent sim_ci ''get_robot_observations'' (Some robot_name),
          Sent agent ''observations'' None,
          Sent agent ''get_commands'' None,
          Sent sim_ci ''set_robot_commands'' (Some robot_name)])"

definition step_order :: "chan \<Rightarrow> string list \<Rightarrow> string list \<Rightarrow> (string \<Rightarrow> chan option) \<Rightarrow> sent list" where
  "step_order sim_ci pl npl r2a =
     concat (map (playable_order sim_ci r2a) pl) @
     map (\<lambda>robot_name. Sent sim_ci ''get_robot_state'' (Some robot_name)) npl"

definition emits :: "(('f, 'd) world, 'a) action \<Rightarrow> sent list \<Rightarrow> bool" where
  "emits m S \<longleftrightarrow> (\<forall>w res w'. m w = (res, w') \<longrightarrow>
      (\<exists>new. trace w' = trace w @ new \<and> prefix (map about new) S \<and>
             ((\<exists>a. res = Inr a) \<longrightarrow> map about new = S)))"

section \<open>What the step driver does to the log\<close>

text \<open>
  \<open>log_grows w w'\<close>: from \<open>w\<close> to \<open>w'\<close> the carbon-copy targets and the scores are the
  same, and every file has only gained copies of exchanges at its end.
  \<open>preserves R m\<close>: every run of the action \<open>m\<close> relates the world before to the world
  after by \<open>R\<close>.
\<close>

definition is_exchange :: "('f, 'd) event \<Rightarrow> bool" where
  "is_exchange e = (case e of Exchange _ _ _ _ \<Rightarrow> True | _ \<Rightarrow> False)"

definition node_grows :: "('f, 'd) node option \<Rightarrow> ('f, 'd) node option \<Rightarrow> bool" where
  "node_grows n n' =
     (case n of
        Some (File es) \<Rightarrow> (\<exists>es'. n' = Some (File (es @ es')) \<and> list_all is_exchange es')
      | _ \<Rightarrow> n' = n)"

definition log_grows :: "('f, 'd) world \<Rightarrow> ('f, 'd) world \<Rightarrow> bool" where
  "log_grows w w' \<longleftrightarrow>
     cc w' = cc w \<and> scores w' = scores w \<and> (\<forall>p. node_grows (fs w p) (fs w' p))"

definition preserves :: "('w \<Rightarrow> 'w \<Rightarrow> bool) \<Rightarrow> ('w, 'a) action \<Rightarrow> bool" where
  "preserves R m \<longleftrightarrow> (\<forall>w res w'. m w = (res, w') \<longrightarrow> R w w')"

section \<open>When the step loop stops\<close>

text \<open>
  \<open>continued n\<close>: the loop goes through \<open>n\<close> whole iterations, each one entered below the
  episode length and left by the physics step; the result is the time and the world after
  them. \<open>stops\<close>: after some number of whole iterations the loop meets a time that has
  reached the episode length, or an iteration in which the simulator reports done.
  \<open>is_step\<close>: the event is an exchange with the topic \<^verbatim>\<open>step\<close>.
\<close>

primrec continued ::
  "nat \<Rightarrow> ('f, 'd) env \<Rightarrow> chan \<Rightarrow> string list \<Rightarrow> string list \<Rightarrow> (string \<Rightarrow> chan option) \<Rightarrow> 'f \<Rightarrow> 'f \<Rightarrow> nat \<Rightarrow> 'f
     \<Rightarrow> ('f, 'd) world \<Rightarrow> ('f \<times> ('f, 'd) world) option" where
  "continued 0 E sim_ci pl npl r2a dt L k t w = Some (t, w)"
| "continued (Suc n) E sim_ci pl npl r2a dt L k t w =
     (if fge E t L then None
      else (case iteration E sim_ci pl npl r2a dt k t w of
              (Inr (Continue t'), w') \<Rightarrow> continued n E sim_ci pl npl r2a dt L k t' w'
            | _ \<Rightarrow> None))"

definition stops ::
  "('f, 'd) env \<Rightarrow> chan \<Rightarrow> string list \<Rightarrow> string list \<Rightarrow> (string \<Rightarrow> chan option) \<Rightarrow> 'f \<Rightarrow> 'f \<Rightarrow> nat \<Rightarrow> 'f
     \<Rightarrow> ('f, 'd) world \<Rightarrow> 'f \<Rightarrow> ('f, 'd) world \<Rightarrow> bool" where
  "stops E sim_ci pl npl r2a dt L k t0 w0 t w' \<longleftrightarrow>
     (\<exists>n w1. continued n E sim_ci pl npl r2a dt L k t0 w0 = Some (t, w1) \<and>
        (fge E t L \<and> w' = w1 \<or>
         \<not> fge E t L \<and> iteration E sim_ci pl npl r2a dt k t w1 = (Inr Break, w')))"

definition is_step :: "('f, 'd) event \<Rightarrow> bool" where
  "is_step e = (case e of Exchange _ tp _ _ \<Rightarrow> tp = ''step'' | _ \<Rightarrow> False)"

section \<open>The retry policy\<close>

text \<open>
  \<open>rejections n\<close>: the episode loop makes \<open>n\<close> attempts in a row and each one is rejected,
  that is, it returns and counts one more failure; the result is the state of the
  orchestrator and the world after them. \<open>initial eps\<close> is the state in which
  \<^verbatim>\<open>main\<close> enters the episode loop. \<open>has_topic tp\<close>: the event is an exchange with the
  topic \<open>tp\<close>.
\<close>

primrec rejections ::
  "nat \<Rightarrow> ('f, 'd) env \<Rightarrow> ('f, 'd, 'y) collaborators \<Rightarrow> 'f MyConfig \<Rightarrow> path \<Rightarrow> path
     \<Rightarrow> ('f, 'd) orchestrator \<Rightarrow> ('f, 'd) world \<Rightarrow> (('f, 'd) orchestrator \<times> ('f, 'd) world) option" where
  "rejections 0 E X cfg log_dir attempts st w = Some (st, w)"
| "rejections (Suc n) E X cfg log_dir attempts st w =
     (case episode_attempt E X cfg log_dir attempts st w of
        Some (Inr st', w') \<Rightarrow>
          if nfailures st' = nfailures st + 1 then rejections n E X cfg log_dir attempts st' w' else None
      | _ \<Rightarrow> None)"

definition initial :: "'d EpisodeSpec list \<Rightarrow> ('f, 'd) orchestrator" where
  "initial eps = \<lparr>episodes = eps, nfailures = 0, attempt_i = 0, per_episode = [], stats = []\<rparr>"

definition has_topic :: "string \<Rightarrow> ('f, 'd) event \<Rightarrow> bool" where
  "has_topic tp e = (case e of Exchange _ tp' _ _ \<Rightarrow> tp' = tp | _ \<Rightarrow> False)"

section \<open>Start-up and clean-up\<close>



section \<open>Concrete inputs\<close>

definition example_env :: "(int, unit) env" where
  "example_env = \<lparr>fzero = 0, fadd = (+), fge = (\<ge>),
         peer = (\<lambda>tr c tp d. Inr (MsgReceived tp
            (if tp = ''get_robot_observations'' then RobotObservations ()
             else if tp = ''get_sim_state'' then SimulationState False else NoData)))\<rparr>"

definition example_scenario :: "unit Scenario" where
  "example_scenario = Scenario ''loop'' ()
     [(''a'', ScenarioRobotSpec () True), (''b'', ScenarioRobotSpec () False), (''c'', ScenarioRobotSpec () True)]"

definition example_world :: "(int, unit) world" where
  "example_world = \<lparr>trace = [], fs = [[''log.tmp''] \<mapsto> File []], cc = (\<lambda>_. Some [''log.tmp'']), scores = []\<rparr>"

text \<open>A simulator that reports \<^verbatim>\<open>done\<close> at once.\<close>

definition done_env :: "(int, unit) env" where
  "done_env = \<lparr>fzero = 0, fadd = (+), fge = (\<ge>),
         peer = (\<lambda>tr c tp d. Inr (MsgReceived tp
            (if tp = ''get_robot_observations'' then RobotObservations ()
             else if tp = ''get_sim_state'' then SimulationState True else NoData)))\<rparr>"

text \<open>A simulator that reports \<^verbatim>\<open>done\<close> once a physics step has been made.\<close>

definition stopping_env :: "(int, unit) env" where
  "stopping_env = \<lparr>fzero = 0, fadd = (+), fge = (\<ge>),
         peer = (\<lambda>tr c tp d. Inr (MsgReceived tp
            (if tp = ''get_robot_observations'' then RobotObservations ()
             else if tp = ''get_sim_state'' then SimulationState (list_ex is_step tr) else NoData)))\<rparr>"

section \<open>Concrete inputs for \<^verbatim>\<open>main\<close>\<close>

text \<open>
  The example of the specification: two episodes per scenario, minimum length 10 s, episode
  length 20 s, physics step 0.5 s, one scenario \<^verbatim>\<open>loop\<close> with one playable robot. The
  simulator of \<open>short_env\<close> reports done in the first iteration, so every episode has
  length 0 and is rejected. Floats are rational numbers here.
\<close>

definition loop_scenario :: "unit Scenario" where
  "loop_scenario = Scenario ''loop'' () [(''ego'', ScenarioRobotSpec () True)]"

definition short_env :: "(rat, unit) env" where
  "short_env = \<lparr>fzero = 0, fadd = (+), fge = (\<ge>),
     peer = (\<lambda>tr c tp d.
       if tp = ''next_scenario'' then
         (if list_ex (has_topic ''next_scenario'') tr then Inr (MsgReceived ''finished'' NoData)
          else Inr (MsgReceived ''scenario'' (ScenarioData loop_scenario)))
       else if tp = ''get_robot_observations'' then Inr (MsgReceived ''robot_observations'' (RobotObservations ()))
       else if tp = ''get_sim_state'' then Inr (MsgReceived ''sim_state'' (SimulationState True))
       else Inr (MsgReceived tp NoData))\<rparr>"

definition example_config :: "int \<Rightarrow> rat MyConfig" where
  "example_config m = \<lparr>episode_length_s = 20, min_episode_length_s = 10, seed = 42,
     physics_dt = 1 / 2, episodes_per_scenario = 2, max_failures = m,
     agent_in = ''agent-in'', agent_out = ''agent-out'', sim_in = ''sim-in'', sim_out = ''sim-out'',
     sm_in = ''sm-in'', sm_out = ''sm-out'', timeout_initialization = 15, timeout_regular = 120\<rparr>"

definition example_sim_protocol :: "string protocol" where
  "example_sim_protocol = \<lparr>inputs = [''set_robot_commands'' \<mapsto> ''SetRobotCommands''],
                    outputs = [''robot_observations'' \<mapsto> ''RobotObservations'']\<rparr>"

definition example_agent_protocol :: "string \<Rightarrow> string protocol" where
  "example_agent_protocol obs = \<lparr>inputs = [''observations'' \<mapsto> obs],
                          outputs = [''commands'' \<mapsto> ''PWMCommands'']\<rparr>"

definition rat_median :: "rat list \<Rightarrow> rat" where
  "rat_median xs =
     (let s = sort xs; n = length s
      in if even n then (s ! (n div 2 - 1) + s ! (n div 2)) / 2 else s ! (n div 2))"

text \<open>
  Collaborators with exact rational arithmetic: an agent that takes observations of the
  type \<open>obs\<close>, a simulator that gives \<open>JPGImage\<close>, a rendering that reports one metric.
\<close>

definition example_collaborators :: "int \<Rightarrow> string \<Rightarrow> (rat, unit, string) collaborators" where
  "example_collaborators m obs = \<lparr>
     load_config = Inr (example_config m),
     node_protocol = (\<lambda>c. if c = ''simulator'' then Inr (Some example_sim_protocol)
                          else if c = ''agent'' then Inr (Some (example_agent_protocol obs))
                          else Inr None),
     annotations = (\<lambda>t. if t = ''RobotObservations'' then [''observations'' \<mapsto> ''JPGImage'']
                         else if t = ''SetRobotCommands'' then [''commands'' \<mapsto> ''PWMCommands'']
                         else Map.empty),
     can_be_used_as2 = (\<lambda>a b. \<lparr>result = (a = b), truth_value = (a = b)\<rparr>),
     read_and_draw = (\<lambda>lg. Inr [(''lane_following'', [([''lane_following'', ''deviation''], 1 / 5)])]),
     make_video1 = (\<lambda>lg. Inr ()),
     np_mean = (\<lambda>xs. sum_list xs / of_nat (length xs)),
     np_median = rat_median,
     np_min = (\<lambda>xs. fold min xs (hd xs)),
     np_max = (\<lambda>xs. fold max xs (hd xs))\<rparr>"

definition initial_world :: "(rat, unit) world" where
  "initial_world = \<lparr>trace = [],
     fs = (\<lambda>p. if p = [] \<or> p = [''episodes''] \<or> p = [''attempts''] then Some Dir else None),
     cc = (\<lambda>_. None), scores = []\<rparr>"

section \<open>Step ordering\<close>

lemma emitsD:
  "emits m S \<Longrightarrow> m w = (res, w') \<Longrightarrow>
     \<exists>new. trace w' = trace w @ new \<and> prefix (map about new) S \<and>
             ((\<exists>a. res = Inr a) \<longrightarrow> map about new = S)"
  unfolding emits_def by (drule spec[of _ w], drule spec[of _ res], drule spec[of _ w'], simp)

lemma emits_return: "emits (return a) []"
  by (simp add: emits_def return_def)

lemma emits_raise: "emits (raise e) S"
  by (auto simp: emits_def raise_def)

lemma emits_and_then:
  assumes "emits m S1" and "\<And>a. emits (f a) S2"
  shows "emits (and_then m f) (S1 @ S2)"
  unfolding emits_def
proof (intro allI impI)
  fix w res w'
  assume run: "and_then m f w = (res, w')"
  obtain r1 w1 where m: "m w = (r1, w1)" by (cases "m w")
  from emitsD[OF assms(1) m] obtain n1 where n1: "trace w1 = trace w @ n1" "prefix (map about n1) S1"
      "(\<exists>a. r1 = Inr a) \<longrightarrow> map about n1 = S1"
    by (elim exE conjE)
  show "\<exists>new. trace w' = trace w @ new \<and> prefix (map about new) (S1 @ S2) \<and>
             ((\<exists>a. res = Inr a) \<longrightarrow> map about new = S1 @ S2)"
  proof (cases r1)
    case (Inl e)
    with run m have "res = Inl e" "w' = w1" by (simp_all add: and_then_def)
    with n1 show ?thesis by (intro exI[of _ n1]) (simp add: prefix_prefix)
  next
    case (Inr a)
    with run m have f: "f a w1 = (res, w')" by (simp add: and_then_def)
    from emitsD[OF assms(2)[of a] f] obtain n2 where n2: "trace w' = trace w1 @ n2" "prefix (map about n2) S2"
      "(\<exists>a. res = Inr a) \<longrightarrow> map about n2 = S2"
      by (elim exE conjE)
    from Inr n1 have e1: "map about n1 = S1" by simp
    have "trace w' = trace w @ (n1 @ n2)" using n1 n2 by simp
    moreover have "prefix (map about (n1 @ n2)) (S1 @ S2)" using e1 n2 by simp
    moreover have "(\<exists>a. res = Inr a) \<longrightarrow> map about (n1 @ n2) = S1 @ S2" using e1 n2 by simp
    ultimately show ?thesis by blast
  qed
qed

lemma emits_try_raise:
  assumes "emits m S"
  shows "emits (try_except m (\<lambda>e. raise (g e))) S"
  unfolding emits_def
proof (intro allI impI)
  fix w res w'
  assume run: "try_except m (\<lambda>e. raise (g e)) w = (res, w')"
  obtain r1 w1 where m: "m w = (r1, w1)" by (cases "m w")
  from emitsD[OF assms m] obtain n1 where n1: "trace w1 = trace w @ n1" "prefix (map about n1) S"
      "(\<exists>a. r1 = Inr a) \<longrightarrow> map about n1 = S"
    by (elim exE conjE)
  from run m have "w' = w1"
    by (cases r1) (simp_all add: try_except_def raise_def)
  moreover from run m have "(\<exists>a. res = Inr a) \<longrightarrow> (\<exists>a. r1 = Inr a)"
    by (cases r1) (auto simp add: try_except_def raise_def)
  ultimately have "w' = w1" "(\<exists>a. res = Inr a) \<longrightarrow> (\<exists>a. r1 = Inr a)" by blast+
  with n1 show "\<exists>new. trace w' = trace w @ new \<and> prefix (map about new) S \<and>
             ((\<exists>a. res = Inr a) \<longrightarrow> map about new = S)" by blast
qed

lemma emits_for_each:
  assumes "\<And>x. emits (f x) (S x)"
  shows "emits (for_each xs f) (concat (map S xs))"
proof (induction xs)
  case Nil
  show ?case by (simp add: emits_def)
next
  case (Cons x xs)
  have eq: "for_each (x # xs) f = and_then (f x) (\<lambda>_. for_each xs f)"
    by (rule ext) (simp add: and_then_def split: prod.splits sum.splits)
  show ?case unfolding eq using emits_and_then[OF assms[of x], of "\<lambda>_. for_each xs f"] Cons
    by simp
qed

lemma emits_write:
  "emits (write_topic_and_expect E c tp d) [Sent c tp (robot_named d)]"
  by (auto simp: emits_def write_topic_and_expect_def Let_def)

lemma emits_write_zero:
  "emits (write_topic_and_expect_zero E c tp d) [Sent c tp (robot_named d)]"
proof -
  have "emits (and_then (write_topic_and_expect E c tp d) (\<lambda>_. return ()))
          ([Sent c tp (robot_named d)] @ [])"
    by (rule emits_and_then[OF emits_write emits_return])
  then show ?thesis by (simp add: write_topic_and_expect_zero_def)
qed

lemma and_then_return: "and_then (return a) f = f a"
  by (rule ext) (simp add: and_then_def return_def)

lemma emits_observations_of: "emits (observations_of recv) []"
  by (cases "data recv") (simp_all add: observations_of_def emits_return emits_raise)

lemma emits_agent_exchange:
  "emits (agent_exchange E agent recv) [Sent agent ''observations'' None, Sent agent ''get_commands'' None]"
proof -
  have "emits (and_then (observations_of recv) (\<lambda>obs.
        and_then (write_topic_and_expect_zero E agent ''observations'' (Forwarded obs)) (\<lambda>_.
        write_topic_and_expect E agent ''get_commands'' Nothing)))
        ([] @ [Sent agent ''observations'' None] @ [Sent agent ''get_commands'' None])"
    by (intro emits_and_then emits_observations_of)
       (use emits_write_zero[of E agent "''observations''" "Forwarded _"]
            emits_write[of E agent "''get_commands''" Nothing] in simp_all)
  then show ?thesis unfolding agent_exchange_def by (simp add: emits_try_raise)
qed

lemma emits_playable_robot_step:
  "emits (playable_robot_step E sim_ci r2a t robot_name) (playable_order sim_ci r2a robot_name)"
proof (cases "r2a robot_name")
  case None
  have "playable_robot_step E sim_ci r2a t robot_name = raise (KeyError robot_name)"
    by (rule ext) (simp add: playable_robot_step_def None and_then_def raise_def)
  then show ?thesis by (simp add: emits_raise)
next
  case (Some agent)
  have eq: "playable_robot_step E sim_ci r2a t robot_name =
     and_then (write_topic_and_expect E sim_ci ''get_robot_state'' (GetRobotState robot_name t)) (\<lambda>_.
     and_then (write_topic_and_expect E sim_ci ''get_robot_performance'' (StrValue robot_name)) (\<lambda>_.
     and_then (write_topic_and_expect E sim_ci ''get_robot_observations'' (GetRobotObservations robot_name t)) (\<lambda>recv.
     and_then (agent_exchange E agent recv) (\<lambda>r.
     write_topic_and_expect_zero E sim_ci ''set_robot_commands''
        (SetRobotCommands robot_name (data r) t)))))"
    by (simp add: playable_robot_step_def Some and_then_return)
  have "emits (playable_robot_step E sim_ci r2a t robot_name)
     ([Sent sim_ci ''get_robot_state'' (Some robot_name)] @
      [Sent sim_ci ''get_robot_performance'' (Some robot_name)] @
      [Sent sim_ci ''get_robot_observations'' (Some robot_name)] @
      [Sent agent ''observations'' None, Sent agent ''get_commands'' None] @
      [Sent sim_ci ''set_robot_commands'' (Some robot_name)])"
    unfolding eq
    by (intro emits_and_then emits_agent_exchange)
       (use emits_write[of E sim_ci _ "GetRobotState robot_name t"]
            emits_write[of E sim_ci _ "StrValue robot_name"]
            emits_write[of E sim_ci _ "GetRobotObservations robot_name t"]
            emits_write_zero[of E sim_ci _ "SetRobotCommands robot_name _ t"] in simp_all)
  then show ?thesis by (simp add: playable_order_def Some)
qed

lemma emits_not_playable_robot_step:
  "emits (not_playable_robot_step E sim_ci t robot_name) [Sent sim_ci ''get_robot_state'' (Some robot_name)]"
  using emits_and_then[where f="\<lambda>_. return ()" and ?S2.0="[]",
          OF emits_write[of E sim_ci "''get_robot_state''" "GetRobotState robot_name t"] emits_return]
  by (simp add: not_playable_robot_step_def)

lemma emits_robots_phase:
  "emits (robots_phase E sim_ci pl npl r2a t) (step_order sim_ci pl npl r2a)"
proof -
  have "concat (map (\<lambda>n. [Sent sim_ci ''get_robot_state'' (Some n)]) npl)
       = map (\<lambda>n. Sent sim_ci ''get_robot_state'' (Some n)) npl"
    by (induction npl) simp_all
  then show ?thesis
    unfolding robots_phase_def step_order_def
    using emits_for_each[of "not_playable_robot_step E sim_ci t" "\<lambda>n. [Sent sim_ci ''get_robot_state'' (Some n)]" npl,
          OF emits_not_playable_robot_step]
    by (intro emits_and_then emits_for_each emits_playable_robot_step) simp
qed

lemma tail_emits:
  assumes "and_then (write_topic_and_expect E sim_ci ''get_sim_state'' Nothing) (\<lambda>recv.
     and_then (done_of recv) (\<lambda>done.
       if done then return Break
       else
         and_then (write_topic_and_expect_zero E sim_ci ''step'' (Step t')) (\<lambda>_.
         and_then (log_timing_info k sim_ci) (\<lambda>_.
         return (Continue t'))))) w = (res, w')"
  shows "\<exists>new. trace w' = trace w @ new \<and>
           prefix (map about new) [Sent sim_ci ''get_sim_state'' None, Sent sim_ci ''step'' None]"
  using assms
  by (auto simp: and_then_def write_topic_and_expect_def write_topic_and_expect_zero_def
        done_of_def return_def raise_def log_timing_info_def Let_def
      split: sum.splits rdata.splits option.splits if_splits)

text \<open>
  Claim C1. In every iteration of the step loop the messages go out in the order
  \<open>step_order\<close>: for each playable robot, in the order of the scenario's robot mapping, the
  state query, the performance query, the observation query, \<^verbatim>\<open>observations\<close> and
  \<^verbatim>\<open>get_commands\<close> to its agent, and the command push, all six before the next robot;
  then the state query of each non-playable robot; then the query of the global state
  and the physics step. An iteration that raises has sent a prefix of this sequence, and an
  iteration that does not raise has sent all of \<open>step_order\<close>.
\<close>

theorem step_ordering:
  assumes run: "iteration E sim_ci (playable_robots sc) (not_playable_robots sc)
              (playable_robots2agent sc ags) dt k t w = (res, w')"
  shows "\<exists>new. trace w' = trace w @ new \<and>
           prefix (map about new)
             (step_order sim_ci (playable_robots sc) (not_playable_robots sc)
                (playable_robots2agent sc ags) @
              [Sent sim_ci ''get_sim_state'' None, Sent sim_ci ''step'' None]) \<and>
           ((\<exists>ctl. res = Inr ctl) \<longrightarrow>
              prefix (step_order sim_ci (playable_robots sc) (not_playable_robots sc)
                        (playable_robots2agent sc ags))
                     (map about new))"
proof -
  let ?S = "step_order sim_ci (playable_robots sc) (not_playable_robots sc)
                (playable_robots2agent sc ags)"
  let ?T = "[Sent sim_ci ''get_sim_state'' None, Sent sim_ci ''step'' None]"
  let ?m = "robots_phase E sim_ci (playable_robots sc) (not_playable_robots sc)
              (playable_robots2agent sc ags) t"
  obtain r1 w1 where m: "?m w = (r1, w1)" by (cases "?m w")
  from emitsD[OF emits_robots_phase m]
  obtain n1 where n1: "trace w1 = trace w @ n1" "prefix (map about n1) ?S"
      "(\<exists>a. r1 = Inr a) \<longrightarrow> map about n1 = ?S"
    by (elim exE conjE)
  show ?thesis
  proof (cases r1)
    case (Inl e)
    with run m have "res = Inl e" "w' = w1" by (simp_all add: iteration_def and_then_def)
    with n1 show ?thesis by (intro exI[of _ n1]) (simp add: prefix_prefix)
  next
    case (Inr a)
    with run m have "and_then (write_topic_and_expect E sim_ci ''get_sim_state'' Nothing) (\<lambda>recv.
       and_then (done_of recv) (\<lambda>done.
         if done then return Break
         else
           and_then (write_topic_and_expect_zero E sim_ci ''step'' (Step (fadd E t dt))) (\<lambda>_.
           and_then (log_timing_info k sim_ci) (\<lambda>_.
           return (Continue (fadd E t dt)))))) w1 = (res, w')"
      by (simp add: iteration_def and_then_def)
    from tail_emits[OF this] obtain n2 where n2: "trace w' = trace w1 @ n2" "prefix (map about n2) ?T"
      by (elim exE conjE)
    from Inr n1 have e1: "map about n1 = ?S" by simp
    have "trace w' = trace w @ (n1 @ n2)" using n1 n2 by simp
    moreover have "prefix (map about (n1 @ n2)) (?S @ ?T)" using e1 n2 by simp
    moreover have "prefix ?S (map about (n1 @ n2))" using e1 by simp
    ultimately show ?thesis by blast
  qed
qed

text \<open>
  Two playable robots and one that is not, two ags: the iteration goes through and the
  thirteen messages of the robots are the first thirteen of the trace.
\<close>

lemma example_robots: "playable_robots example_scenario = [''a'', ''c'']" "not_playable_robots example_scenario = [''b'']"
  by (simp_all add: example_scenario_def playable_robots_def not_playable_robots_def)

theorem step_ordering_witness:
  "fst (iteration example_env ''simulator'' (playable_robots example_scenario) (not_playable_robots example_scenario)
          (playable_robots2agent example_scenario [''agent1'', ''agent2'']) 1 0 0 example_world) = Inr (Continue 1) \<and>
   prefix [Sent ''simulator'' ''get_robot_state'' (Some ''a''),
           Sent ''simulator'' ''get_robot_performance'' (Some ''a''),
           Sent ''simulator'' ''get_robot_observations'' (Some ''a''),
           Sent ''agent1'' ''observations'' None,
           Sent ''agent1'' ''get_commands'' None,
           Sent ''simulator'' ''set_robot_commands'' (Some ''a''),
           Sent ''simulator'' ''get_robot_state'' (Some ''c''),
           Sent ''simulator'' ''get_robot_performance'' (Some ''c''),
           Sent ''simulator'' ''get_robot_observations'' (Some ''c''),
           Sent ''agent2'' ''observations'' None,
           Sent ''agent2'' ''get_commands'' None,
           Sent ''simulator'' ''set_robot_commands'' (Some ''c''),
           Sent ''simulator'' ''get_robot_state'' (Some ''b'')]
     (map about (trace (snd (iteration example_env ''simulator'' (playable_robots example_scenario) (not_playable_robots example_scenario)
          (playable_robots2agent example_scenario [''agent1'', ''agent2'']) 1 0 0 example_world))))"
proof -
  let ?it = "iteration example_env ''simulator'' (playable_robots example_scenario) (not_playable_robots example_scenario)
          (playable_robots2agent example_scenario [''agent1'', ''agent2'']) 1 0 0 example_world"
  have ev: "fst ?it = Inr (Continue 1)"
    by (simp add: example_robots playable_robots2agent_def iteration_def robots_phase_def
          playable_robot_step_def not_playable_robot_step_def agent_exchange_def
          observations_of_def done_of_def log_timing_info_def try_except_def and_then_def
          return_def raise_def write_topic_and_expect_def write_topic_and_expect_zero_def
          example_env_def example_world_def Let_def)
  have so: "step_order ''simulator'' (playable_robots example_scenario) (not_playable_robots example_scenario)
          (playable_robots2agent example_scenario [''agent1'', ''agent2'']) =
          [Sent ''simulator'' ''get_robot_state'' (Some ''a''),
           Sent ''simulator'' ''get_robot_performance'' (Some ''a''),
           Sent ''simulator'' ''get_robot_observations'' (Some ''a''),
           Sent ''agent1'' ''observations'' None,
           Sent ''agent1'' ''get_commands'' None,
           Sent ''simulator'' ''set_robot_commands'' (Some ''a''),
           Sent ''simulator'' ''get_robot_state'' (Some ''c''),
           Sent ''simulator'' ''get_robot_performance'' (Some ''c''),
           Sent ''simulator'' ''get_robot_observations'' (Some ''c''),
           Sent ''agent2'' ''observations'' None,
           Sent ''agent2'' ''get_commands'' None,
           Sent ''simulator'' ''set_robot_commands'' (Some ''c''),
           Sent ''simulator'' ''get_robot_state'' (Some ''b'')]"
    by (simp add: example_robots playable_robots2agent_def step_order_def playable_order_def)
  have tr0: "trace example_world = []" by (simp add: example_world_def)
  from step_ordering[OF prod.collapse[symmetric], of example_env "''simulator''" example_scenario "[''agent1'', ''agent2'']" 1 0 0 example_world]
  show ?thesis using ev unfolding so tr0 by auto
qed

section \<open>The log only grows\<close>

lemma preservesD: "preserves R m \<Longrightarrow> m w = (res, w') \<Longrightarrow> R w w'"
  unfolding preserves_def by (drule spec[of _ w], drule spec[of _ res], drule spec[of _ w'], simp)

lemma preservesI: "(\<And>w res w'. m w = (res, w') \<Longrightarrow> R w w') \<Longrightarrow> preserves R m"
  unfolding preserves_def by (intro allI impI)

lemma preserves_return: "reflp R \<Longrightarrow> preserves R (return a)"
  by (rule preservesI) (simp add: return_def reflpD)

lemma preserves_raise: "reflp R \<Longrightarrow> preserves R (raise e)"
  by (rule preservesI) (simp add: raise_def reflpD)

lemma preserves_and_then:
  assumes "transp R" "preserves R m" "\<And>a. preserves R (f a)"
  shows "preserves R (and_then m f)"
proof (rule preservesI)
  fix w res w'
  assume run: "and_then m f w = (res, w')"
  obtain r1 w1 where m: "m w = (r1, w1)" by (cases "m w")
  have 1: "R w w1" by (rule preservesD[OF assms(2) m])
  show "R w w'"
  proof (cases r1)
    case (Inl e)
    with run m have "w' = w1" by (simp add: and_then_def)
    with 1 show ?thesis by simp
  next
    case (Inr a)
    with run m have "f a w1 = (res, w')" by (simp add: and_then_def)
    from preservesD[OF assms(3) this] have 2: "R w1 w'" .
    show ?thesis by (rule transpD[OF assms(1) 1 2])
  qed
qed

lemma preserves_try_raise:
  assumes "preserves R m"
  shows "preserves R (try_except m (\<lambda>e. raise (g e)))"
proof (rule preservesI)
  fix w res w'
  assume run: "try_except m (\<lambda>e. raise (g e)) w = (res, w')"
  obtain r1 w1 where m: "m w = (r1, w1)" by (cases "m w")
  from run m have "w' = w1" by (cases r1) (simp_all add: try_except_def raise_def)
  with preservesD[OF assms m] show "R w w'" by simp
qed

lemma for_each_Cons: "for_each (x # xs) f = and_then (f x) (\<lambda>_. for_each xs f)"
  by (rule ext) (simp add: and_then_def split: prod.splits sum.splits)

lemma preserves_for_each:
  assumes "reflp R" "transp R" "\<And>x. preserves R (f x)"
  shows "preserves R (for_each xs f)"
proof (induction xs)
  case Nil
  show ?case by (rule preservesI) (simp add: reflpD[OF assms(1)])
next
  case (Cons x xs)
  show ?case unfolding for_each_Cons
    by (rule preserves_and_then[OF assms(2) assms(3)]) (rule Cons)
qed

lemma node_grows_refl: "node_grows n n"
  by (simp add: node_grows_def split: option.splits node.splits)

lemma node_grows_trans: "node_grows a b \<Longrightarrow> node_grows b c \<Longrightarrow> node_grows a c"
proof (cases a)
  case None
  assume "node_grows a b" "node_grows b c"
  with None show ?thesis by (simp add: node_grows_def)
next
  case (Some n)
  assume ab: "node_grows a b" and bc: "node_grows b c"
  show ?thesis
  proof (cases n)
    case Dir
    with Some ab bc show ?thesis by (simp add: node_grows_def)
  next
    case (File es)
    with Some ab obtain e1 where e1: "b = Some (File (es @ e1))" "list_all is_exchange e1"
      by (auto simp: node_grows_def)
    with bc obtain e2 where e2: "c = Some (File ((es @ e1) @ e2))" "list_all is_exchange e2"
      by (auto simp: node_grows_def)
    have "c = Some (File (es @ (e1 @ e2)))" "list_all is_exchange (e1 @ e2)"
      using e1 e2 by simp_all
    with Some File show ?thesis unfolding node_grows_def by (simp del: append_assoc)
  qed
qed

lemma reflp_log_grows: "reflp log_grows"
  by (rule reflpI) (simp add: log_grows_def node_grows_refl)

lemma transp_log_grows: "transp log_grows"
proof (rule transpI)
  fix w1 w2 w3 :: "('a, 'b) world"
  assume a: "log_grows w1 w2" and b: "log_grows w2 w3"
  have "node_grows (fs w1 p) (fs w3 p)" for p
    using a b node_grows_trans[of "fs w1 p" "fs w2 p" "fs w3 p"] by (simp add: log_grows_def)
  with a b show "log_grows w1 w3" by (simp add: log_grows_def)
qed

lemma node_grows_append_file:
  "is_exchange e \<Longrightarrow> node_grows (f p) (append_file po e f p)"
proof (cases po)
  case None
  then show ?thesis by (simp add: append_file_def node_grows_refl)
next
  case (Some q)
  assume e: "is_exchange e"
  show ?thesis
  proof (cases "f q")
    case None
    with Some show ?thesis by (simp add: append_file_def node_grows_refl)
  next
    case (Some n)
    note fq = this
    show ?thesis
    proof (cases n)
      case Dir
      with fq \<open>po = Some q\<close> show ?thesis by (simp add: append_file_def node_grows_refl)
    next
      case (File es)
      show ?thesis
      proof (cases "p = q")
        case True
        with fq File \<open>po = Some q\<close> e show ?thesis
          by (simp add: append_file_def node_grows_def)
      next
        case False
        with fq File \<open>po = Some q\<close> show ?thesis
          by (simp add: append_file_def node_grows_refl)
      qed
    qed
  qed
qed

lemma log_grows_write: "preserves log_grows (write_topic_and_expect E c tp d)"
proof (rule preservesI)
  fix w :: "('a, 'b) world" and res w'
  assume run: "write_topic_and_expect E c tp d w = (res, w')"
  let ?e = "Exchange c tp d (peer E (trace w) c tp d)"
  from run have w': "w' = w\<lparr>trace := trace w @ [?e], fs := append_file (cc w c) ?e (fs w)\<rparr>"
    by (auto simp: write_topic_and_expect_def Let_def)
  have "is_exchange ?e" by (simp add: is_exchange_def)
  from node_grows_append_file[OF this] w' show "log_grows w w'" by (simp add: log_grows_def)
qed

lemma log_grows_write_zero: "preserves log_grows (write_topic_and_expect_zero E c tp d)"
  unfolding write_topic_and_expect_zero_def
  by (intro preserves_and_then transp_log_grows log_grows_write preserves_return reflp_log_grows)

lemma log_grows_observations_of: "preserves log_grows (observations_of recv)"
  by (cases "data recv") (simp_all add: observations_of_def preserves_return preserves_raise reflp_log_grows)

lemma log_grows_done_of: "preserves log_grows (done_of recv)"
  by (cases "data recv") (simp_all add: done_of_def preserves_return preserves_raise reflp_log_grows)

lemma log_grows_agent_exchange: "preserves log_grows (agent_exchange E agent recv)"
  unfolding agent_exchange_def
  by (intro preserves_try_raise preserves_and_then transp_log_grows log_grows_write
        log_grows_write_zero log_grows_observations_of)

lemma log_grows_playable_robot_step: "preserves log_grows (playable_robot_step E sim_ci r2a t robot_name)"
  unfolding playable_robot_step_def
  by (cases "r2a robot_name")
     (auto intro!: preserves_try_raise preserves_and_then transp_log_grows log_grows_write
        log_grows_write_zero log_grows_agent_exchange preserves_return preserves_raise reflp_log_grows)

lemma log_grows_robots_phase: "preserves log_grows (robots_phase E sim_ci pl npl r2a t)"
  unfolding robots_phase_def not_playable_robot_step_def
  by (intro preserves_and_then preserves_for_each transp_log_grows reflp_log_grows
        log_grows_playable_robot_step log_grows_write preserves_return)

section \<open>The timing record\<close>

lemma and_then_InrD:
  "and_then m f w = (Inr b, w') \<Longrightarrow> \<exists>a w1. m w = (Inr a, w1) \<and> f a w1 = (Inr b, w')"
  by (cases "m w") (auto simp: and_then_def split: sum.splits)

lemma and_then_cases:
  "and_then m f w = (res, w') \<Longrightarrow>
     (\<exists>e. m w = (Inl e, w') \<and> res = Inl e) \<or> (\<exists>a w1. m w = (Inr a, w1) \<and> f a w1 = (res, w'))"
  by (cases "m w") (auto simp: and_then_def split: sum.splits)

lemma done_of_cases:
  "done_of recv w = (res, w') \<Longrightarrow>
     w' = w \<and> ((\<exists>d. data recv = SimulationState d \<and> res = Inr d) \<or> res = Inl AttributeError)"
  by (cases "data recv") (auto simp: done_of_def return_def raise_def)

lemma iteration_Break:
  assumes "iteration E sim_ci pl npl r2a dt k t w = (Inr Break, w')"
  shows "\<exists>w1 recv. robots_phase E sim_ci pl npl r2a t w = (Inr (), w1) \<and>
           write_topic_and_expect E sim_ci ''get_sim_state'' Nothing w1 = (Inr recv, w') \<and>
           data recv = SimulationState True"
proof -
  from and_then_InrD[OF assms[unfolded iteration_def]]
  obtain u w1 where a: "robots_phase E sim_ci pl npl r2a t w = (Inr u, w1)"
    and b: "and_then (write_topic_and_expect E sim_ci ''get_sim_state'' Nothing) (\<lambda>recv.
     and_then (done_of recv) (\<lambda>done.
       if done then return Break
       else
         and_then (write_topic_and_expect_zero E sim_ci ''step'' (Step (fadd E t dt))) (\<lambda>_.
         and_then (log_timing_info k sim_ci) (\<lambda>_.
         return (Continue (fadd E t dt)))))) w1 = (Inr Break, w')"
    by (elim exE conjE)
  from and_then_InrD[OF b]
  obtain recv w2 where c: "write_topic_and_expect E sim_ci ''get_sim_state'' Nothing w1 = (Inr recv, w2)"
    and d: "and_then (done_of recv) (\<lambda>done.
       if done then return Break
       else
         and_then (write_topic_and_expect_zero E sim_ci ''step'' (Step (fadd E t dt))) (\<lambda>_.
         and_then (log_timing_info k sim_ci) (\<lambda>_.
         return (Continue (fadd E t dt))))) w2 = (Inr Break, w')"
    by (elim exE conjE)
  from and_then_InrD[OF d]
  obtain dn w3 where e: "done_of recv w2 = (Inr dn, w3)"
    and f: "(if dn then return Break
       else
         and_then (write_topic_and_expect_zero E sim_ci ''step'' (Step (fadd E t dt))) (\<lambda>_.
         and_then (log_timing_info k sim_ci) (\<lambda>_.
         return (Continue (fadd E t dt))))) w3 = (Inr Break, w')"
    by (elim exE conjE)
  from done_of_cases[OF e] have w3: "w3 = w2" and dr: "data recv = SimulationState dn" by auto
  have dn
  proof (rule ccontr)
    assume "\<not> dn"
    with f have g: "and_then (write_topic_and_expect_zero E sim_ci ''step'' (Step (fadd E t dt))) (\<lambda>_.
         and_then (log_timing_info k sim_ci) (\<lambda>_.
         return (Continue (fadd E t dt)))) w3 = (Inr Break, w')" by simp
    from and_then_InrD[OF g] obtain x w4 where
      "and_then (log_timing_info k sim_ci) (\<lambda>_. return (Continue (fadd E t dt))) w4 = (Inr Break, w')"
      by (elim exE conjE)
    from and_then_InrD[OF this] show False by (auto simp: return_def)
  qed
  with f have "w' = w3" by (simp add: return_def)
  with a c w3 dr \<open>dn\<close> show ?thesis by simp
qed

lemma iteration_Continue:
  assumes "iteration E sim_ci pl npl r2a dt k t w = (Inr (Continue t'), w')"
  shows "t' = fadd E t dt \<and>
         (\<exists>w1 recv w2 w3. robots_phase E sim_ci pl npl r2a t w = (Inr (), w1) \<and>
           write_topic_and_expect E sim_ci ''get_sim_state'' Nothing w1 = (Inr recv, w2) \<and>
           data recv = SimulationState False \<and>
           write_topic_and_expect_zero E sim_ci ''step'' (Step t') w2 = (Inr (), w3) \<and>
           log_timing_info k sim_ci w3 = (Inr (), w'))"
proof -
  from and_then_InrD[OF assms[unfolded iteration_def]]
  obtain u w1 where a: "robots_phase E sim_ci pl npl r2a t w = (Inr u, w1)"
    and b: "and_then (write_topic_and_expect E sim_ci ''get_sim_state'' Nothing) (\<lambda>recv.
     and_then (done_of recv) (\<lambda>done.
       if done then return Break
       else
         and_then (write_topic_and_expect_zero E sim_ci ''step'' (Step (fadd E t dt))) (\<lambda>_.
         and_then (log_timing_info k sim_ci) (\<lambda>_.
         return (Continue (fadd E t dt)))))) w1 = (Inr (Continue t'), w')"
    by (elim exE conjE)
  from and_then_InrD[OF b]
  obtain recv w2 where c: "write_topic_and_expect E sim_ci ''get_sim_state'' Nothing w1 = (Inr recv, w2)"
    and d: "and_then (done_of recv) (\<lambda>done.
       if done then return Break
       else
         and_then (write_topic_and_expect_zero E sim_ci ''step'' (Step (fadd E t dt))) (\<lambda>_.
         and_then (log_timing_info k sim_ci) (\<lambda>_.
         return (Continue (fadd E t dt))))) w2 = (Inr (Continue t'), w')"
    by (elim exE conjE)
  from and_then_InrD[OF d]
  obtain dn w3 where e: "done_of recv w2 = (Inr dn, w3)"
    and f: "(if dn then return Break
       else
         and_then (write_topic_and_expect_zero E sim_ci ''step'' (Step (fadd E t dt))) (\<lambda>_.
         and_then (log_timing_info k sim_ci) (\<lambda>_.
         return (Continue (fadd E t dt))))) w3 = (Inr (Continue t'), w')"
    by (elim exE conjE)
  from done_of_cases[OF e] have w3: "w3 = w2" and dr: "data recv = SimulationState dn" by auto
  have nd: "\<not> dn" using f by (auto simp: return_def)
  with f have g: "and_then (write_topic_and_expect_zero E sim_ci ''step'' (Step (fadd E t dt))) (\<lambda>_.
         and_then (log_timing_info k sim_ci) (\<lambda>_.
         return (Continue (fadd E t dt)))) w3 = (Inr (Continue t'), w')" by simp
  from and_then_InrD[OF g] obtain x w4 where
    h: "write_topic_and_expect_zero E sim_ci ''step'' (Step (fadd E t dt)) w3 = (Inr x, w4)" and
    i: "and_then (log_timing_info k sim_ci) (\<lambda>_. return (Continue (fadd E t dt))) w4 = (Inr (Continue t'), w')"
    by (elim exE conjE)
  from and_then_InrD[OF i] obtain y w5 where
    j: "log_timing_info k sim_ci w4 = (Inr y, w5)" and
    l: "return (Continue (fadd E t dt)) w5 = (Inr (Continue t'), w')"
    by (elim exE conjE)
  from l have t': "t' = fadd E t dt" and w5: "w5 = w'" by (simp_all add: return_def)
  from a c dr nd h j show ?thesis unfolding t' w5 w3 by auto
qed

lemma log_grows_1:
  "robots_phase E sim_ci pl npl r2a t w = (r1, w1) \<Longrightarrow> log_grows w w1"
  by (rule preservesD[OF log_grows_robots_phase])

lemma log_grows_2:
  assumes "robots_phase E sim_ci pl npl r2a t w = (r1, w1)"
    "write_topic_and_expect E sim_ci tp d w1 = (r2, w2)"
  shows "log_grows w w2"
  by (rule transpD[OF transp_log_grows log_grows_1[OF assms(1)] preservesD[OF log_grows_write assms(2)]])

lemma log_grows_3:
  assumes "robots_phase E sim_ci pl npl r2a t w = (r1, w1)"
    "write_topic_and_expect E sim_ci tp d w1 = (r2, w2)"
    "write_topic_and_expect_zero E sim_ci tp' d' w2 = (r3, w3)"
  shows "log_grows w w3"
  by (rule transpD[OF transp_log_grows log_grows_2[OF assms(1,2)] preservesD[OF log_grows_write_zero assms(3)]])

lemma log_timing_info_cases:
  "log_timing_info k c w = (res, w') \<Longrightarrow>
     (res = Inl AttributeError \<and> w' = w \<and> cc w c = None) \<or>
     (\<exists>p. res = Inr () \<and> cc w c = Some p \<and> w' = w\<lparr>fs := append_file (Some p) (TimingInformation k) (fs w)\<rparr>)"
  by (cases "cc w c") (auto simp: log_timing_info_def)

lemma iteration_other:
  assumes run: "iteration E sim_ci pl npl r2a dt k t w = (res, w')"
    and nc: "\<And>t'. res \<noteq> Inr (Continue t')"
  shows "log_grows w w'"
proof -
  from and_then_cases[OF run[unfolded iteration_def]] show ?thesis
  proof (elim disjE exE conjE)
    fix e assume "robots_phase E sim_ci pl npl r2a t w = (Inl e, w')"
    then show ?thesis by (rule log_grows_1)
  next
    fix u w1
    assume a: "robots_phase E sim_ci pl npl r2a t w = (Inr u, w1)"
      and b: "and_then (write_topic_and_expect E sim_ci ''get_sim_state'' Nothing) (\<lambda>recv.
         and_then (done_of recv) (\<lambda>done.
           if done then return Break
           else
             and_then (write_topic_and_expect_zero E sim_ci ''step'' (Step (fadd E t dt))) (\<lambda>_.
             and_then (log_timing_info k sim_ci) (\<lambda>_.
             return (Continue (fadd E t dt)))))) w1 = (res, w')"
    from and_then_cases[OF b] show ?thesis
    proof (elim disjE exE conjE)
      fix e assume "write_topic_and_expect E sim_ci ''get_sim_state'' Nothing w1 = (Inl e, w')"
      with a show ?thesis by (rule log_grows_2)
    next
      fix recv w2
      assume c: "write_topic_and_expect E sim_ci ''get_sim_state'' Nothing w1 = (Inr recv, w2)"
        and d: "and_then (done_of recv) (\<lambda>done.
           if done then return Break
           else
             and_then (write_topic_and_expect_zero E sim_ci ''step'' (Step (fadd E t dt))) (\<lambda>_.
             and_then (log_timing_info k sim_ci) (\<lambda>_.
             return (Continue (fadd E t dt))))) w2 = (res, w')"
      have g2: "log_grows w w2" by (rule log_grows_2[OF a c])
      from and_then_cases[OF d] show ?thesis
      proof (elim disjE exE conjE)
        fix e assume "done_of recv w2 = (Inl e, w')"
        from done_of_cases[OF this] g2 show ?thesis by simp
      next
        fix dn w3
        assume e: "done_of recv w2 = (Inr dn, w3)"
          and f: "(if dn then return Break
           else
             and_then (write_topic_and_expect_zero E sim_ci ''step'' (Step (fadd E t dt))) (\<lambda>_.
             and_then (log_timing_info k sim_ci) (\<lambda>_.
             return (Continue (fadd E t dt))))) w3 = (res, w')"
        from done_of_cases[OF e] have w3: "w3 = w2" by simp
        show ?thesis
        proof (cases dn)
          case True
          with f have "w' = w3" by (simp add: return_def)
          with w3 g2 show ?thesis by simp
        next
          case False
          with f w3 have g: "and_then (write_topic_and_expect_zero E sim_ci ''step'' (Step (fadd E t dt))) (\<lambda>_.
             and_then (log_timing_info k sim_ci) (\<lambda>_.
             return (Continue (fadd E t dt)))) w2 = (res, w')" by simp
          from and_then_cases[OF g] show ?thesis
          proof (elim disjE exE conjE)
            fix e assume "write_topic_and_expect_zero E sim_ci ''step'' (Step (fadd E t dt)) w2 = (Inl e, w')"
            from log_grows_3[OF a c this] show ?thesis .
          next
            fix x w4
            assume h: "write_topic_and_expect_zero E sim_ci ''step'' (Step (fadd E t dt)) w2 = (Inr x, w4)"
              and i: "and_then (log_timing_info k sim_ci) (\<lambda>_. return (Continue (fadd E t dt))) w4 = (res, w')"
            have g4: "log_grows w w4" by (rule log_grows_3[OF a c h])
            from and_then_cases[OF i] show ?thesis
            proof (elim disjE exE conjE)
              fix e assume "log_timing_info k sim_ci w4 = (Inl e, w')"
              from log_timing_info_cases[OF this] g4 show ?thesis by simp
            next
              fix y w5
              assume "return (Continue (fadd E t dt)) w5 = (res, w')"
              then have "res = Inr (Continue (fadd E t dt))" by (simp add: return_def)
              with nc[of "fadd E t dt"] show ?thesis by simp
            qed
          qed
        qed
      qed
    qed
  qed
qed

lemma log_grows_file:
  "log_grows w w' \<Longrightarrow> fs w p = Some (File es) \<Longrightarrow>
     \<exists>new. fs w' p = Some (File (es @ new)) \<and> list_all is_exchange new"
  unfolding log_grows_def by (elim conjE) (drule spec[of _ p], simp add: node_grows_def)

text \<open>
  Claim C7, as amended. With the log open (the simulator channel copies to the file \<open>p\<close>),
  an iteration of the step loop that goes through the physics step appends copies of
  exchanges and then, as the last entry, the timing record of the iteration. An iteration
  that ends because the simulator reports done, or because something raises, appends
  copies of exchanges only: it leaves the loop before \<^verbatim>\<open>log_timing_info\<close>.
\<close>

theorem timing_record_logged:
  assumes run: "iteration E sim_ci pl npl r2a dt k t w = (res, w')"
    and cc: "cc w sim_ci = Some p" and fl: "fs w p = Some (File es)"
  shows "\<exists>new. fs w' p = Some (File (es @ new)) \<and>
           (if (\<exists>t'. res = Inr (Continue t'))
            then new \<noteq> [] \<and> last new = TimingInformation k \<and> list_all is_exchange (butlast new)
            else list_all is_exchange new)"
proof (cases "\<exists>t'. res = Inr (Continue t')")
  case False
  then have "\<And>t'. res \<noteq> Inr (Continue t')" by simp
  from log_grows_file[OF iteration_other[OF run this] fl] False show ?thesis by simp
next
  case True
  then obtain t' where res: "res = Inr (Continue t')" by (elim exE)
  from iteration_Continue[OF run[unfolded res]]
  obtain w1 recv w2 w3 where
    a: "robots_phase E sim_ci pl npl r2a t w = (Inr (), w1)" and
    b: "write_topic_and_expect E sim_ci ''get_sim_state'' Nothing w1 = (Inr recv, w2)" and
    c: "write_topic_and_expect_zero E sim_ci ''step'' (Step t') w2 = (Inr (), w3)" and
    d: "log_timing_info k sim_ci w3 = (Inr (), w')"
    by (elim exE conjE)
  have g: "log_grows w w3" by (rule log_grows_3[OF a b c])
  then have cc3: "cc w3 sim_ci = Some p" using cc by (simp add: log_grows_def)
  from log_grows_file[OF g fl] obtain e3 where
    e3: "fs w3 p = Some (File (es @ e3))" "list_all is_exchange e3" by (elim exE conjE)
  from log_timing_info_cases[OF d] cc3
  have "w' = w3\<lparr>fs := append_file (Some p) (TimingInformation k) (fs w3)\<rparr>" by auto
  with e3 have "fs w' p = Some (File (es @ (e3 @ [TimingInformation k])))"
    by (simp add: append_file_def)
  moreover have "e3 @ [TimingInformation k] \<noteq> []" "last (e3 @ [TimingInformation k]) = TimingInformation k"
    "list_all is_exchange (butlast (e3 @ [TimingInformation k]))" using e3 by simp_all
  ultimately show ?thesis using True by (intro exI[of _ "e3 @ [TimingInformation k]"]) simp
qed

text \<open>One robot that is not playable, a simulator that goes on: four entries, the timing record last.\<close>

theorem timing_record_logged_witness:
  "cc example_world ''simulator'' = Some [''log.tmp''] \<and>
   fs example_world [''log.tmp''] = Some (File []) \<and>
   fst (iteration example_env ''simulator'' [] [''b''] (\<lambda>_. None) 1 0 0 example_world) = Inr (Continue 1) \<and>
   fs (snd (iteration example_env ''simulator'' [] [''b''] (\<lambda>_. None) 1 0 0 example_world)) [''log.tmp''] =
     Some (File [Exchange ''simulator'' ''get_robot_state'' (GetRobotState ''b'' 0)
                   (Inr (MsgReceived ''get_robot_state'' NoData)),
                 Exchange ''simulator'' ''get_sim_state'' Nothing
                   (Inr (MsgReceived ''get_sim_state'' (SimulationState False))),
                 Exchange ''simulator'' ''step'' (Step 1) (Inr (MsgReceived ''step'' NoData)),
                 TimingInformation 0])"
proof -
  let ?it = "iteration example_env ''simulator'' [] [''b''] (\<lambda>_. None) 1 0 0 example_world"
  have h1: "cc example_world ''simulator'' = Some [''log.tmp'']"
    and h2: "fs example_world [''log.tmp''] = Some (File [])"
    by (simp_all add: example_world_def)
  have ev: "?it = (Inr (Continue 1), snd ?it)"
    by (simp add: iteration_def robots_phase_def not_playable_robot_step_def
          done_of_def log_timing_info_def and_then_def
          return_def raise_def write_topic_and_expect_def write_topic_and_expect_zero_def
          example_env_def example_world_def Let_def)
  from timing_record_logged[OF ev h1 h2]
  obtain new where n: "fs (snd ?it) [''log.tmp''] = Some (File ([] @ new))"
    "new \<noteq> []" "last new = TimingInformation 0" by auto
  have "fs (snd ?it) [''log.tmp''] =
     Some (File [Exchange ''simulator'' ''get_robot_state'' (GetRobotState ''b'' 0)
                   (Inr (MsgReceived ''get_robot_state'' NoData)),
                 Exchange ''simulator'' ''get_sim_state'' Nothing
                   (Inr (MsgReceived ''get_sim_state'' (SimulationState False))),
                 Exchange ''simulator'' ''step'' (Step 1) (Inr (MsgReceived ''step'' NoData)),
                 TimingInformation 0])"
    by (simp add: iteration_def robots_phase_def not_playable_robot_step_def
          done_of_def log_timing_info_def and_then_def append_file_def
          return_def raise_def write_topic_and_expect_def write_topic_and_expect_zero_def
          example_env_def example_world_def Let_def)
  moreover have "fst ?it = Inr (Continue 1)" by (subst ev) simp
  ultimately show ?thesis using h1 h2 n by simp
qed

text \<open>
  Claim C7 as stated fails: the simulator reports done in the iteration, the iteration
  ends, and the log holds the two exchanges and no timing record.
\<close>

theorem timing_record_counterexample:
  "cc example_world ''simulator'' = Some [''log.tmp''] \<and>
   fs example_world [''log.tmp''] = Some (File []) \<and>
   fst (iteration done_env ''simulator'' [] [''b''] (\<lambda>_. None) 1 0 0 example_world) = Inr Break \<and>
   fs (snd (iteration done_env ''simulator'' [] [''b''] (\<lambda>_. None) 1 0 0 example_world)) [''log.tmp''] =
     Some (File [Exchange ''simulator'' ''get_robot_state'' (GetRobotState ''b'' 0)
                   (Inr (MsgReceived ''get_robot_state'' NoData)),
                 Exchange ''simulator'' ''get_sim_state'' Nothing
                   (Inr (MsgReceived ''get_sim_state'' (SimulationState True)))])"
  by (simp add: iteration_def robots_phase_def not_playable_robot_step_def
          done_of_def log_timing_info_def and_then_def append_file_def
          return_def raise_def write_topic_and_expect_def write_topic_and_expect_zero_def
          done_env_def example_world_def Let_def)

section \<open>The step loop stops at the first of done and the episode length\<close>

lemma stops_now:
  "fge E t L \<Longrightarrow> stops E sim_ci pl npl r2a dt L k t w t w"
  unfolding stops_def by (intro exI[of _ 0] exI[of _ w]) simp

lemma stops_done:
  "\<not> fge E t L \<Longrightarrow> iteration E sim_ci pl npl r2a dt k t w = (Inr Break, w') \<Longrightarrow>
     stops E sim_ci pl npl r2a dt L k t w t w'"
  unfolding stops_def by (intro exI[of _ 0] exI[of _ w]) simp

lemma stops_later:
  assumes "\<not> fge E t0 L" "iteration E sim_ci pl npl r2a dt k t0 w0 = (Inr (Continue t1), w1)"
    "stops E sim_ci pl npl r2a dt L k t1 w1 t w'"
  shows "stops E sim_ci pl npl r2a dt L k t0 w0 t w'"
proof -
  from assms(3) obtain n w2 where
    c: "continued n E sim_ci pl npl r2a dt L k t1 w1 = Some (t, w2)" and
    d: "fge E t L \<and> w' = w2 \<or> \<not> fge E t L \<and> iteration E sim_ci pl npl r2a dt k t w2 = (Inr Break, w')"
    unfolding stops_def by (elim exE conjE)
  from assms(1,2) c have "continued (Suc n) E sim_ci pl npl r2a dt L k t0 w0 = Some (t, w2)" by simp
  with d show ?thesis unfolding stops_def by (intro exI[of _ "Suc n"] exI[of _ w2] conjI)
qed

lemma step_loop_stops:
  assumes "step_loop E sim_ci pl npl r2a dt L k t0 w0 = Some y"
  shows "\<forall>t w'. y = (Inr t, w') \<longrightarrow> stops E sim_ci pl npl r2a dt L k t0 w0 t w'"
proof (rule step_loop.raw_induct[where P="\<lambda>E sim_ci pl npl r2a dt L k t0 w0 y.
          \<forall>t w'. y = (Inr t, w') \<longrightarrow> stops E sim_ci pl npl r2a dt L k t0 w0 t w'", OF _ assms])
  fix f :: "('a, 'b) env \<Rightarrow> chan \<Rightarrow> string list \<Rightarrow> string list \<Rightarrow> (string \<Rightarrow> chan option) \<Rightarrow> 'a \<Rightarrow> 'a \<Rightarrow> nat \<Rightarrow> 'a
     \<Rightarrow> ('a, 'b) world \<Rightarrow> ((exn + 'a) \<times> ('a, 'b) world) option"
    and E sim_ci pl npl r2a dt L k t0 w0 y
  assume IH: "\<And>E sim_ci pl npl r2a dt L k t0 w0 y. f E sim_ci pl npl r2a dt L k t0 w0 = Some y \<Longrightarrow>
          \<forall>t w'. y = (Inr t, w') \<longrightarrow> stops E sim_ci pl npl r2a dt L k t0 w0 t w'"
    and F: "(if fge E t0 L then Some (Inr t0, w0)
        else case iteration E sim_ci pl npl r2a dt k t0 w0 of
               (Inl e, w') \<Rightarrow> Some (Inl e, w')
             | (Inr Break, w') \<Rightarrow> Some (Inr t0, w')
             | (Inr (Continue t), w') \<Rightarrow> f E sim_ci pl npl r2a dt L k t w') = Some y"
  note 1 = IH F
  show "\<forall>t w'. y = (Inr t, w') \<longrightarrow> stops E sim_ci pl npl r2a dt L k t0 w0 t w'"
  proof (cases "fge E t0 L")
    case True
    with 1(2) have "y = (Inr t0, w0)" by simp
    with True show ?thesis by (simp add: stops_now)
  next
    case False
    obtain r w1 where it: "iteration E sim_ci pl npl r2a dt k t0 w0 = (r, w1)"
      by (cases "iteration E sim_ci pl npl r2a dt k t0 w0")
    show ?thesis
    proof (cases r)
      case (Inl e)
      with 1(2) False it have "y = (Inl e, w1)" by simp
      then show ?thesis by simp
    next
      case (Inr ctl)
      show ?thesis
      proof (cases ctl)
        case Break
        with 1(2) False it Inr have "y = (Inr t0, w1)" by simp
        with stops_done[OF False] it Inr Break show ?thesis by simp
      next
        case (Continue t1)
        with 1(2) False it Inr have "f E sim_ci pl npl r2a dt L k t1 w1 = Some y" by simp
        from 1(1)[OF this] stops_later[OF False] it Inr Continue show ?thesis by blast
      qed
    qed
  qed
qed

lemma stops_step_loop:
  assumes "continued n E sim_ci pl npl r2a dt L k t0 w0 = Some (t, w1)"
    and "fge E t L \<and> w' = w1 \<or> \<not> fge E t L \<and> iteration E sim_ci pl npl r2a dt k t w1 = (Inr Break, w')"
  shows "step_loop E sim_ci pl npl r2a dt L k t0 w0 = Some (Inr t, w')"
  using assms
proof (induction n arbitrary: t0 w0)
  case 0
  then have eq: "t = t0" "w1 = w0" by simp_all
  from 0(2) show ?case unfolding eq
    by (subst step_loop.simps) auto
next
  case (Suc n)
  from Suc(2) have nf: "\<not> fge E t0 L" by (simp split: if_splits)
  obtain r w2 where it: "iteration E sim_ci pl npl r2a dt k t0 w0 = (r, w2)"
    by (cases "iteration E sim_ci pl npl r2a dt k t0 w0")
  from Suc(2) nf it obtain t1 where r: "r = Inr (Continue t1)"
    and c: "continued n E sim_ci pl npl r2a dt L k t1 w2 = Some (t, w1)"
    by (auto split: sum.splits loop_ctl.splits)
  have "step_loop E sim_ci pl npl r2a dt L k t0 w0 = step_loop E sim_ci pl npl r2a dt L k t1 w2"
    by (subst step_loop.simps) (simp add: nf it r)
  with Suc(1)[OF c Suc(3)] show ?case by simp
qed

lemma step_loop_iff:
  "step_loop E sim_ci pl npl r2a dt L k t0 w0 = Some (Inr t, w') \<longleftrightarrow>
     stops E sim_ci pl npl r2a dt L k t0 w0 t w'"
proof
  assume "step_loop E sim_ci pl npl r2a dt L k t0 w0 = Some (Inr t, w')"
  from step_loop_stops[OF this] show "stops E sim_ci pl npl r2a dt L k t0 w0 t w'" by simp
next
  assume "stops E sim_ci pl npl r2a dt L k t0 w0 t w'"
  then obtain n w1 where
    c: "continued n E sim_ci pl npl r2a dt L k t0 w0 = Some (t, w1)" and
    d: "fge E t L \<and> w' = w1 \<or> \<not> fge E t L \<and> iteration E sim_ci pl npl r2a dt k t w1 = (Inr Break, w')"
    unfolding stops_def by (elim exE conjE)
  from stops_step_loop[OF c d] show "step_loop E sim_ci pl npl r2a dt L k t0 w0 = Some (Inr t, w')" .
qed

lemma continued_time:
  "continued n E sim_ci pl npl r2a dt L k t0 w0 = Some (t, w1) \<Longrightarrow>
     t = ((\<lambda>x. fadd E x dt) ^^ n) t0"
proof (induction n arbitrary: t0 w0)
  case 0
  then show ?case by simp
next
  case (Suc n)
  from Suc(2) have nf: "\<not> fge E t0 L" by (simp split: if_splits)
  obtain r w2 where it: "iteration E sim_ci pl npl r2a dt k t0 w0 = (r, w2)"
    by (cases "iteration E sim_ci pl npl r2a dt k t0 w0")
  from Suc(2) nf it obtain t1 where r: "r = Inr (Continue t1)"
    and c: "continued n E sim_ci pl npl r2a dt L k t1 w2 = Some (t, w1)"
    by (auto split: sum.splits loop_ctl.splits)
  from iteration_Continue[OF it[unfolded r]] have "t1 = fadd E t0 dt" by simp
  moreover have "((\<lambda>x. fadd E x dt) ^^ Suc n) t0 = ((\<lambda>x. fadd E x dt) ^^ n) (fadd E t0 dt)"
    by (simp only: funpow_Suc_right o_apply)
  ultimately show ?case using Suc(1)[OF c] by simp
qed

lemma no_step_in_order: "Sent c ''step'' x \<notin> set (step_order sim_ci pl npl r2a)"
  by (auto simp: step_order_def playable_order_def split: option.splits)

lemma is_step_about: "is_step e \<Longrightarrow> \<exists>c x. about e = Sent c ''step'' x"
  by (cases e) (simp_all add: is_step_def)

lemma write_topic_and_expect_trace:
  "write_topic_and_expect E c tp d w = (r, w') \<Longrightarrow> trace w' = trace w @ [Exchange c tp d r]"
  by (auto simp: write_topic_and_expect_def Let_def)

lemma iteration_Break_trace:
  assumes "iteration E sim_ci pl npl r2a dt k t w = (Inr Break, w')"
  shows "\<exists>pre recv. trace w' = trace w @ pre @ [Exchange sim_ci ''get_sim_state'' Nothing (Inr recv)] \<and>
           data recv = SimulationState True \<and> (\<forall>e\<in>set pre. \<not> is_step e)"
proof -
  from iteration_Break[OF assms] obtain w1 recv where
    a: "robots_phase E sim_ci pl npl r2a t w = (Inr (), w1)" and
    b: "write_topic_and_expect E sim_ci ''get_sim_state'' Nothing w1 = (Inr recv, w')" and
    c: "data recv = SimulationState True"
    by (elim exE conjE)
  from emitsD[OF emits_robots_phase a] obtain pre where
    p: "trace w1 = trace w @ pre" "map about pre = step_order sim_ci pl npl r2a"
    by auto
  have "\<not> is_step e" if "e \<in> set pre" for e
  proof
    assume "is_step e"
    from is_step_about[OF this] obtain c x where "about e = Sent c ''step'' x" by (elim exE)
    with that have "Sent c ''step'' x \<in> set (map about pre)" by force
    with p(2) no_step_in_order show False by metis
  qed
  with write_topic_and_expect_trace[OF b] p(1) c show ?thesis by simp
qed

lemma done_reply_breaks:
  assumes a: "robots_phase E sim_ci pl npl r2a t w = (Inr (), w1)"
    and b: "write_topic_and_expect E sim_ci ''get_sim_state'' Nothing w1 = (Inr recv, w2)"
    and c: "data recv = SimulationState True"
  shows "iteration E sim_ci pl npl r2a dt k t w = (Inr Break, w2)"
  by (simp add: iteration_def and_then_def a b c done_of_def return_def)

lemma done_reply_no_step:
  assumes a: "robots_phase E sim_ci pl npl r2a t w = (Inr (), w1)"
    and b: "write_topic_and_expect E sim_ci ''get_sim_state'' Nothing w1 = (Inr recv, w2)"
  shows "\<forall>e\<in>set (drop (length (trace w)) (trace w2)). \<not> is_step e"
proof -
  from emitsD[OF emits_robots_phase a] obtain pre where
    p: "trace w1 = trace w @ pre" "map about pre = step_order sim_ci pl npl r2a"
    by auto
  have np: "\<not> is_step e" if "e \<in> set pre" for e
  proof
    assume "is_step e"
    from is_step_about[OF this] obtain c x where "about e = Sent c ''step'' x" by (elim exE)
    with that have "Sent c ''step'' x \<in> set (map about pre)" by force
    with p(2) no_step_in_order show False by metis
  qed
  from write_topic_and_expect_trace[OF b] p(1)
  have "drop (length (trace w)) (trace w2) = pre @ [Exchange sim_ci ''get_sim_state'' Nothing (Inr recv)]"
    by simp
  with np show ?thesis by (auto simp: is_step_def)
qed

lemma step_loop_done:
  assumes nf: "\<not> fge E t L"
    and a: "robots_phase E sim_ci pl npl r2a t w = (Inr (), w1)"
    and b: "write_topic_and_expect E sim_ci ''get_sim_state'' Nothing w1 = (Inr recv, w2)"
    and c: "data recv = SimulationState True"
  shows "step_loop E sim_ci pl npl r2a dt L k t w = Some (Inr t, w2)"
  by (subst step_loop.simps) (simp add: nf done_reply_breaks[OF a b c])

lemma step_loop_limit:
  "fge E t L \<Longrightarrow> step_loop E sim_ci pl npl r2a dt L k t w = Some (Inr t, w)"
  by (subst step_loop.simps) simp

lemma step_loop_continue:
  assumes nf: "\<not> fge E t L"
    and it: "iteration E sim_ci pl npl r2a dt k t w = (Inr (Continue t'), w')"
  shows "step_loop E sim_ci pl npl r2a dt L k t w = step_loop E sim_ci pl npl r2a dt L k t' w'"
  by (subst step_loop.simps) (simp add: nf it)

lemma pairI: "fst x = a \<Longrightarrow> x = (a, snd x)"
  by auto

lemmas eval_defs = iteration_def robots_phase_def playable_robot_step_def
  not_playable_robot_step_def agent_exchange_def observations_of_def done_of_def
  log_timing_info_def try_except_def and_then_def return_def raise_def
  write_topic_and_expect_def write_topic_and_expect_zero_def episode_setup_def
  is_step_def Let_def

text \<open>
  Claim C2. The step loop stops at the first of (a) and (b), and at nothing else short of an
  exception.
  \<^item> \<^verbatim>\<open>run_episode\<close> returns the time \<open>t\<close> exactly when, after the setup and some number
    \<open>n\<close> of whole iterations, the time \<open>t\<close>, which is \<open>n\<close> physics steps from zero, has
    reached the episode length, or the iteration that begins at \<open>t\<close> ends on a done reply.
  \<^item> (b) A time that has reached the episode length ends the loop at once, with nothing sent.
  \<^item> (a) In an iteration below the episode length, if the reply to \<^verbatim>\<open>get_sim_state\<close> says
    done, the iteration breaks, the loop returns the time at which the iteration began, the
    world is the one right after that reply, and no \<^verbatim>\<open>step\<close> message was sent in the
    iteration.
  \<^item> An iteration that goes on to the next one had a reply that says not done, and advanced
    the time by one physics step.
\<close>

theorem termination_invariant:
  "(run_episode E sim_ci ags dt nm sc L w = Some (Inr t, w') \<longleftrightarrow>
     (\<exists>w0 n w1. episode_setup E sim_ci ags nm sc w = (Inr (), w0) \<and>
        continued n E sim_ci (playable_robots sc) (not_playable_robots sc)
          (playable_robots2agent sc ags) dt L 0 (fzero E) w0 = Some (t, w1) \<and>
        t = ((\<lambda>x. fadd E x dt) ^^ n) (fzero E) \<and>
        (fge E t L \<and> w' = w1 \<or>
         \<not> fge E t L \<and>
         iteration E sim_ci (playable_robots sc) (not_playable_robots sc)
           (playable_robots2agent sc ags) dt 0 t w1 = (Inr Break, w') \<and>
         (\<exists>pre recv. trace w' = trace w1 @ pre @ [Exchange sim_ci ''get_sim_state'' Nothing (Inr recv)] \<and>
            data recv = SimulationState True \<and> (\<forall>e\<in>set pre. \<not> is_step e))))) \<and>
   (fge E ta L \<longrightarrow> step_loop E sim_ci pl npl r2a dt L k ta wa = Some (Inr ta, wa)) \<and>
   (\<not> fge E ta L \<longrightarrow>
    robots_phase E sim_ci pl npl r2a ta wa = (Inr (), wb) \<longrightarrow>
    write_topic_and_expect E sim_ci ''get_sim_state'' Nothing wb = (Inr rc, wc) \<longrightarrow>
    data rc = SimulationState True \<longrightarrow>
      iteration E sim_ci pl npl r2a dt k ta wa = (Inr Break, wc) \<and>
      step_loop E sim_ci pl npl r2a dt L k ta wa = Some (Inr ta, wc) \<and>
      (\<forall>e\<in>set (drop (length (trace wa)) (trace wc)). \<not> is_step e)) \<and>
   (iteration E sim_ci pl npl r2a dt k ta wa = (Inr (Continue tb), wd) \<longrightarrow>
      tb = fadd E ta dt \<and>
      (\<exists>v1 rc' v2. robots_phase E sim_ci pl npl r2a ta wa = (Inr (), v1) \<and>
         write_topic_and_expect E sim_ci ''get_sim_state'' Nothing v1 = (Inr rc', v2) \<and>
         data rc' = SimulationState False) \<and>
      (\<not> fge E ta L \<longrightarrow>
         step_loop E sim_ci pl npl r2a dt L k ta wa = step_loop E sim_ci pl npl r2a dt L k tb wd))"
  (is "(?lhs \<longleftrightarrow> ?rhs) \<and> ?limit \<and> ?done \<and> ?cont")
proof (intro conjI)
  show "?lhs \<longleftrightarrow> ?rhs"
  proof
    assume l: ?lhs
    obtain r w0 where s: "episode_setup E sim_ci ags nm sc w = (r, w0)"
      by (cases "episode_setup E sim_ci ags nm sc w")
    from l s obtain u where r: "r = Inr u" by (cases r) (simp_all add: run_episode_def)
    with l s have "step_loop E sim_ci (playable_robots sc) (not_playable_robots sc)
              (playable_robots2agent sc ags) dt L 0 (fzero E) w0 = Some (Inr t, w')"
      by (simp add: run_episode_def)
    then have "stops E sim_ci (playable_robots sc) (not_playable_robots sc)
              (playable_robots2agent sc ags) dt L 0 (fzero E) w0 t w'"
      by (simp only: step_loop_iff)
    then obtain n w1 where
      c: "continued n E sim_ci (playable_robots sc) (not_playable_robots sc)
            (playable_robots2agent sc ags) dt L 0 (fzero E) w0 = Some (t, w1)" and
      d: "fge E t L \<and> w' = w1 \<or> \<not> fge E t L \<and> iteration E sim_ci (playable_robots sc) (not_playable_robots sc)
             (playable_robots2agent sc ags) dt 0 t w1 = (Inr Break, w')"
      unfolding stops_def by (elim exE conjE)
    from s r have s': "episode_setup E sim_ci ags nm sc w = (Inr (), w0)" by simp
    have d': "fge E t L \<and> w' = w1 \<or>
           \<not> fge E t L \<and>
           iteration E sim_ci (playable_robots sc) (not_playable_robots sc)
             (playable_robots2agent sc ags) dt 0 t w1 = (Inr Break, w') \<and>
           (\<exists>pre recv. trace w' = trace w1 @ pre @ [Exchange sim_ci ''get_sim_state'' Nothing (Inr recv)] \<and>
              data recv = SimulationState True \<and> (\<forall>e\<in>set pre. \<not> is_step e))"
    proof (cases "fge E t L")
      case True
      with d show ?thesis by simp
    next
      case False
      with d have it: "iteration E sim_ci (playable_robots sc) (not_playable_robots sc)
             (playable_robots2agent sc ags) dt 0 t w1 = (Inr Break, w')" by simp
      from iteration_Break_trace[OF it] False it show ?thesis by simp
    qed
    from s' c continued_time[OF c] d' show ?rhs by (intro exI[of _ w0] exI[of _ n] exI[of _ w1] conjI)
  next
    assume ?rhs
    then obtain w0 n w1 where
      s: "episode_setup E sim_ci ags nm sc w = (Inr (), w0)" and
      c: "continued n E sim_ci (playable_robots sc) (not_playable_robots sc)
            (playable_robots2agent sc ags) dt L 0 (fzero E) w0 = Some (t, w1)" and
      d: "fge E t L \<and> w' = w1 \<or> \<not> fge E t L \<and> iteration E sim_ci (playable_robots sc) (not_playable_robots sc)
             (playable_robots2agent sc ags) dt 0 t w1 = (Inr Break, w')"
      by (elim exE conjE disjE) simp_all
    from stops_step_loop[OF c d] s show ?lhs by (simp add: run_episode_def)
  qed
  show ?limit by (simp add: step_loop_limit)
  show ?done
    by (intro impI conjI done_reply_breaks step_loop_done done_reply_no_step)
  show ?cont
  proof (intro impI conjI)
    assume it: "iteration E sim_ci pl npl r2a dt k ta wa = (Inr (Continue tb), wd)"
    from iteration_Continue[OF it] show "tb = fadd E ta dt" by simp
    from iteration_Continue[OF it]
    show "\<exists>v1 rc' v2. robots_phase E sim_ci pl npl r2a ta wa = (Inr (), v1) \<and>
         write_topic_and_expect E sim_ci ''get_sim_state'' Nothing v1 = (Inr rc', v2) \<and>
         data rc' = SimulationState False"
      by blast
    assume "\<not> fge E ta L"
    then show "step_loop E sim_ci pl npl r2a dt L k ta wa = step_loop E sim_ci pl npl r2a dt L k tb wd"
      using it by (rule step_loop_continue)
  qed
qed

text \<open>
  Episode length 10, physics step 1. A simulator that reports done in the second
  iteration: the run returns 1. A simulator that reports done at once: the loop returns 0.
\<close>

theorem termination_invariant_witness:
  "map_option fst (run_episode stopping_env ''simulator'' [''agent1'', ''agent2''] 1 ''loop-0''
      example_scenario 10 example_world) = Some (Inr 1) \<and>
   \<not> fge done_env 0 10 \<and>
   fst (write_topic_and_expect done_env ''simulator'' ''get_sim_state'' Nothing
          (snd (robots_phase done_env ''simulator'' [] [''b''] (\<lambda>_. None) 0 example_world))) =
     Inr (MsgReceived ''get_sim_state'' (SimulationState True)) \<and>
   map_option fst (step_loop done_env ''simulator'' [] [''b''] (\<lambda>_. None) 1 10 0 0 example_world) =
     Some (Inr 0)"
proof -
  let ?pl = "playable_robots example_scenario"
  let ?npl = "not_playable_robots example_scenario"
  let ?r2a = "playable_robots2agent example_scenario [''agent1'', ''agent2'']"
  let ?s = "episode_setup stopping_env ''simulator'' [''agent1'', ''agent2''] ''loop-0'' example_scenario example_world"
  let ?w0 = "snd ?s"
  let ?i1 = "iteration stopping_env ''simulator'' ?pl ?npl ?r2a 1 0 0 ?w0"
  let ?w1 = "snd ?i1"
  let ?i2 = "iteration stopping_env ''simulator'' ?pl ?npl ?r2a 1 0 1 ?w1"
  let ?w2 = "snd ?i2"
  have "fst ?s = Inr ()"
    by (simp add: eval_defs example_scenario_def example_world_def stopping_env_def)
  then have s: "?s = (Inr (), ?w0)" by (rule pairI)
  have "fst ?i1 = Inr (Continue 1)"
    by (simp add: eval_defs playable_robots_def not_playable_robots_def playable_robots2agent_def
          example_scenario_def example_world_def stopping_env_def)
  then have i1: "?i1 = (Inr (Continue 1), ?w1)" by (rule pairI)
  have "fst ?i2 = Inr Break"
    by (simp add: eval_defs playable_robots_def not_playable_robots_def playable_robots2agent_def
          example_scenario_def example_world_def stopping_env_def)
  then have i2: "?i2 = (Inr Break, ?w2)" by (rule pairI)
  have f0: "\<not> fge stopping_env 0 10" "\<not> fge stopping_env 1 10" "fzero stopping_env = 0"
    "fadd stopping_env 0 1 = 1"
    by (simp_all add: stopping_env_def)
  have c: "continued (Suc 0) stopping_env ''simulator'' ?pl ?npl ?r2a 1 10 0 (fzero stopping_env) ?w0 = Some (1, ?w1)"
    unfolding continued.simps f0(3) by (subst i1) (simp add: f0)
  have t: "(1::int) = ((\<lambda>x. fadd stopping_env x 1) ^^ Suc 0) (fzero stopping_env)"
    using f0 by simp
  have d: "fge stopping_env 1 10 \<and> ?w2 = ?w1 \<or>
         \<not> fge stopping_env 1 10 \<and> ?i2 = (Inr Break, ?w2) \<and>
         (\<exists>pre recv. trace ?w2 = trace ?w1 @ pre @ [Exchange ''simulator'' ''get_sim_state'' Nothing (Inr recv)] \<and>
            data recv = SimulationState True \<and> (\<forall>e\<in>set pre. \<not> is_step e))"
    by (intro disjI2 conjI f0(2) i2 iteration_Break_trace[OF i2])
  have A: "run_episode stopping_env ''simulator'' [''agent1'', ''agent2''] 1 ''loop-0''
      example_scenario 10 example_world = Some (Inr 1, ?w2)"
    by (rule termination_invariant[THEN conjunct1, THEN iffD2])
       (intro exI[of _ ?w0] exI[of _ "Suc 0"] exI[of _ ?w1] conjI s c t d)
  let ?rp = "robots_phase done_env ''simulator'' [] [''b''] (\<lambda>_. None) 0 example_world"
  let ?gs = "write_topic_and_expect done_env ''simulator'' ''get_sim_state'' Nothing (snd ?rp)"
  have nf: "\<not> fge done_env 0 10" by (simp add: done_env_def)
  have "fst ?rp = Inr ()"
    by (simp add: eval_defs example_world_def done_env_def)
  then have rp: "?rp = (Inr (), snd ?rp)" by (rule pairI)
  have gs1: "fst ?gs = Inr (MsgReceived ''get_sim_state'' (SimulationState True))"
    by (simp add: eval_defs example_world_def done_env_def)
  then have gs: "?gs = (Inr (MsgReceived ''get_sim_state'' (SimulationState True)), snd ?gs)" by (rule pairI)
  have dt: "data (MsgReceived ''get_sim_state'' (SimulationState True) :: unit MsgReceived) = SimulationState True"
    by simp
  from termination_invariant[THEN conjunct2, THEN conjunct2, THEN conjunct1, rule_format, OF nf rp gs dt,
         where dt = 1 and k = 0]
  have B: "step_loop done_env ''simulator'' [] [''b''] (\<lambda>_. None) 1 10 0 0 example_world = Some (Inr 0, snd ?gs)"
    by (rule conjunct2[THEN conjunct1])
  from A B nf gs1 show ?thesis by simp
qed

section \<open>The episode loop\<close>

lemma and_then_Inr_iff:
  "and_then m f w = (Inr b, w') \<longleftrightarrow> (\<exists>a w1. m w = (Inr a, w1) \<and> f a w1 = (Inr b, w'))"
  by (cases "m w") (auto simp: and_then_def split: sum.splits)

lemma return_eq: "return a w = (r, w') \<longleftrightarrow> r = Inr a \<and> w' = w"
  by (auto simp: return_def)

lemma raise_eq: "raise e w = (r, w') \<longleftrightarrow> r = Inl e \<and> w' = w"
  by (auto simp: raise_def)

lemma evaluate_attempt_Inr:
  assumes "evaluate_attempt E X cfg dn_final dn fn st length_s w = (Inr st', w')"
  shows "attempt_i st' = attempt_i st + 1 \<and>
         (if fge E length_s (min_episode_length_s cfg)
          then episodes st' = tl (episodes st) \<and> nfailures st' = nfailures st
          else episodes st' = episodes st \<and> nfailures st' = nfailures st + 1)"
proof -
  from and_then_InrD[OF assms[unfolded evaluate_attempt_def]]
  obtain lg w1 where
    b: "and_then (lift (read_and_draw X lg)) (\<lambda>evaluated.
       let st1 = st\<lparr>stats := compute_stats evaluated,
                    per_episode := AList.update (episode_name (hd (episodes st)))
                                      (compute_stats evaluated) (per_episode st)\<rparr>
       in if fge E length_s (min_episode_length_s cfg) then
            and_then (lift (make_video1 X lg)) (\<lambda>_.
            and_then (\<lambda>w. (Inr (), w\<lparr>fs := create_file (dn @ [''camera.mp4'']) (fs w)\<rparr>)) (\<lambda>_.
            and_then (rename dn dn_final) (\<lambda>_.
            return (st1\<lparr>episodes := tl (episodes st1), attempt_i := attempt_i st1 + 1\<rparr>))))
          else
            return (st1\<lparr>nfailures := nfailures st1 + 1, attempt_i := attempt_i st1 + 1\<rparr>)) w1 = (Inr st', w')"
    by (elim exE conjE)
  from and_then_InrD[OF b] obtain evaluated w2 where
    c: "(let st1 = st\<lparr>stats := compute_stats evaluated,
                    per_episode := AList.update (episode_name (hd (episodes st)))
                                      (compute_stats evaluated) (per_episode st)\<rparr>
       in if fge E length_s (min_episode_length_s cfg) then
            and_then (lift (make_video1 X lg)) (\<lambda>_.
            and_then (\<lambda>w. (Inr (), w\<lparr>fs := create_file (dn @ [''camera.mp4'']) (fs w)\<rparr>)) (\<lambda>_.
            and_then (rename dn dn_final) (\<lambda>_.
            return (st1\<lparr>episodes := tl (episodes st1), attempt_i := attempt_i st1 + 1\<rparr>))))
          else
            return (st1\<lparr>nfailures := nfailures st1 + 1, attempt_i := attempt_i st1 + 1\<rparr>)) w2 = (Inr st', w')"
    by (elim exE conjE)
  define st1 where "st1 = st\<lparr>stats := compute_stats evaluated,
                    per_episode := AList.update (episode_name (hd (episodes st)))
                                      (compute_stats evaluated) (per_episode st)\<rparr>"
  have st1: "episodes st1 = episodes st" "nfailures st1 = nfailures st" "attempt_i st1 = attempt_i st"
    by (simp_all add: st1_def)
  show ?thesis
  proof (cases "fge E length_s (min_episode_length_s cfg)")
    case True
    with c have d: "and_then (lift (make_video1 X lg)) (\<lambda>_.
            and_then (\<lambda>w. (Inr (), w\<lparr>fs := create_file (dn @ [''camera.mp4'']) (fs w)\<rparr>)) (\<lambda>_.
            and_then (rename dn dn_final) (\<lambda>_.
            return (st1\<lparr>episodes := tl (episodes st1), attempt_i := attempt_i st1 + 1\<rparr>)))) w2 = (Inr st', w')"
      by (simp add: Let_def st1_def)
    from and_then_InrD[OF d] obtain x3 w3 where
      e: "and_then (\<lambda>w. (Inr (), w\<lparr>fs := create_file (dn @ [''camera.mp4'']) (fs w)\<rparr>)) (\<lambda>_.
            and_then (rename dn dn_final) (\<lambda>_.
            return (st1\<lparr>episodes := tl (episodes st1), attempt_i := attempt_i st1 + 1\<rparr>))) w3 = (Inr st', w')"
      by (elim exE conjE)
    from and_then_InrD[OF e] obtain x4 w4 where
      f: "and_then (rename dn dn_final) (\<lambda>_.
            return (st1\<lparr>episodes := tl (episodes st1), attempt_i := attempt_i st1 + 1\<rparr>)) w4 = (Inr st', w')"
      by (elim exE conjE)
    from and_then_InrD[OF f] obtain x5 w5 where
      g: "return (st1\<lparr>episodes := tl (episodes st1), attempt_i := attempt_i st1 + 1\<rparr>) w5 = (Inr st', w')"
      by (elim exE conjE)
    then have "st' = st1\<lparr>episodes := tl (episodes st1), attempt_i := attempt_i st1 + 1\<rparr>"
      by (simp add: return_def)
    with True st1 show ?thesis by simp
  next
    case False
    with c have "return (st1\<lparr>nfailures := nfailures st1 + 1, attempt_i := attempt_i st1 + 1\<rparr>) w2 = (Inr st', w')"
      by (simp add: Let_def st1_def)
    then have "st' = st1\<lparr>nfailures := nfailures st1 + 1, attempt_i := attempt_i st1 + 1\<rparr>"
      by (simp add: return_def)
    with False st1 show ?thesis by simp
  qed
qed

lemma episode_attempt_Inr:
  assumes "episode_attempt E X cfg log_dir attempts st w = Some (Inr st', w')"
  shows "\<exists>length_s w1 w2.
          run_episode E main_sim_ci [main_agent_ci] (physics_dt cfg) (episode_name (hd (episodes st)))
             (scenario (hd (episodes st))) (episode_length_s cfg) w1 = Some (Inr length_s, w2) \<and>
          attempt_i st' = attempt_i st + 1 \<and>
          (if fge E length_s (min_episode_length_s cfg)
           then episodes st' = tl (episodes st) \<and> nfailures st' = nfailures st
           else episodes st' = episodes st \<and> nfailures st' = nfailures st + 1)"
proof -
  let ?spec = "hd (episodes st)"
  let ?dn_final = "log_dir @ [episode_name ?spec]"
  let ?dn = "attempts @ [episode_name ?spec @ ''.attempt'' @ string_of_nat (attempt_i st)]"
  obtain r1 w1 where p: "prepare_attempt ?dn_final ?dn (?dn @ [''log.gs2.cbor.tmp'']) [main_agent_ci] ?spec w = (r1, w1)"
    by (cases "prepare_attempt ?dn_final ?dn (?dn @ [''log.gs2.cbor.tmp'']) [main_agent_ci] ?spec w")
  have "r1 \<noteq> Inl e" for e
  proof
    assume "r1 = Inl e"
    then have "episode_attempt E X cfg log_dir attempts st w = Some (Inl e, w1)"
      unfolding episode_attempt_def Let_def p by (simp only: prod.case sum.case)
    with assms show False by simp
  qed
  then obtain u where r1: "r1 = Inr u" by (cases r1) auto
  let ?run = "run_episode E main_sim_ci [main_agent_ci] (physics_dt cfg) (episode_name ?spec)
             (scenario ?spec) (episode_length_s cfg) w1"
  have ea: "episode_attempt E X cfg log_dir attempts st w =
      (case ?run of
         None \<Rightarrow> None
       | Some (r, w2) \<Rightarrow>
           Some (and_then (rename (?dn @ [''log.gs2.cbor.tmp'']) (?dn @ [''log.gs2.cbor''])) (\<lambda>_.
                         case r of
                           Inl e \<Rightarrow> raise e
                         | Inr length_s \<Rightarrow> evaluate_attempt E X cfg ?dn_final ?dn (?dn @ [''log.gs2.cbor'']) st length_s) w2))"
    unfolding episode_attempt_def Let_def p r1 by (simp only: prod.case sum.case)
  from assms ea obtain r2 w2 where run: "?run = Some (r2, w2)"
    by (cases ?run) auto
  from assms run have fin: "and_then (rename (?dn @ [''log.gs2.cbor.tmp'']) (?dn @ [''log.gs2.cbor''])) (\<lambda>_.
                         case r2 of
                           Inl e \<Rightarrow> raise e
                         | Inr length_s \<Rightarrow> evaluate_attempt E X cfg ?dn_final ?dn (?dn @ [''log.gs2.cbor'']) st length_s) w2
        = (Inr st', w')"
    unfolding ea by simp
  from and_then_InrD[OF fin] obtain x w3 where
    ev: "(case r2 of Inl e \<Rightarrow> raise e
          | Inr length_s \<Rightarrow> evaluate_attempt E X cfg ?dn_final ?dn (?dn @ [''log.gs2.cbor'']) st length_s) w3
        = (Inr st', w')"
    by (elim exE conjE)
  from ev obtain length_s where r2: "r2 = Inr length_s"
    by (cases r2) (simp_all add: raise_def)
  from ev r2 have "evaluate_attempt E X cfg ?dn_final ?dn (?dn @ [''log.gs2.cbor'']) st length_s w3 = (Inr st', w')"
    by simp
  from evaluate_attempt_Inr[OF this] run[unfolded r2] show ?thesis
    by (intro exI[of _ length_s] exI[of _ w1] exI[of _ w2] conjI) simp_all
qed

lemma rejected_keeps_episodes:
  assumes "episode_attempt E X cfg log_dir attempts st w = Some (Inr st', w')"
    and "nfailures st' = nfailures st + 1"
  shows "episodes st' = episodes st"
proof -
  from episode_attempt_Inr[OF assms(1)] obtain length_s where
    "if fge E length_s (min_episode_length_s cfg)
     then episodes st' = tl (episodes st) \<and> nfailures st' = nfailures st
     else episodes st' = episodes st \<and> nfailures st' = nfailures st + 1"
    by (elim exE conjE)
  with assms(2) show ?thesis by (cases "fge E length_s (min_episode_length_s cfg)") simp_all
qed

lemma episode_loop_too_many:
  "episodes st \<noteq> [] \<Longrightarrow> max_failures cfg \<le> nfailures st \<Longrightarrow>
     episode_loop E X cfg log_dir attempts st w = Some (Inl (TooManyFailures (nfailures st)), w)"
  by (subst episode_loop.simps) simp

lemma episode_loop_next:
  "episodes st \<noteq> [] \<Longrightarrow> nfailures st < max_failures cfg \<Longrightarrow>
     episode_attempt E X cfg log_dir attempts st w = Some (Inr st', w') \<Longrightarrow>
     episode_loop E X cfg log_dir attempts st w = episode_loop E X cfg log_dir attempts st' w'"
  by (subst episode_loop.simps) simp

lemma episode_loop_rejections:
  assumes "rejections n E X cfg log_dir attempts st w = Some (st', w')"
    and "episodes st \<noteq> []" and "max_failures cfg = nfailures st + int n"
  shows "episode_loop E X cfg log_dir attempts st w = Some (Inl (TooManyFailures (max_failures cfg)), w') \<and>
         nfailures st' = max_failures cfg \<and> episodes st' = episodes st"
  using assms
proof (induction n arbitrary: st w)
  case 0
  then have "st' = st" "w' = w" "max_failures cfg = nfailures st" by simp_all
  with episode_loop_too_many[of st cfg E X log_dir attempts w] 0(2) show ?case by simp
next
  case (Suc n)
  from Suc(2) obtain st1 w1 where
    a: "episode_attempt E X cfg log_dir attempts st w = Some (Inr st1, w1)" and
    b: "nfailures st1 = nfailures st + 1" and
    c: "rejections n E X cfg log_dir attempts st1 w1 = Some (st', w')"
    by (auto split: option.splits sum.splits if_splits)
  have e: "episodes st1 = episodes st" by (rule rejected_keeps_episodes[OF a b])
  with Suc(3) have ne: "episodes st1 \<noteq> []" by simp
  from Suc(4) b have m: "max_failures cfg = nfailures st1 + int n" by simp
  from Suc(4) have lt: "nfailures st < max_failures cfg" by simp
  from Suc(1)[OF c ne m] episode_loop_next[OF Suc(3) lt a] e show ?case by simp
qed

lemma main_try_initial:
  "main_try E X cfg log_dir attempts w =
     (case seed_peers E cfg w of
        (Inl e, w1) \<Rightarrow> Some (Inl e, w1)
      | (Inr _, w1) \<Rightarrow>
          (case get_episodes E main_sm_ci (episodes_per_scenario cfg) (seed cfg) w1 of
             None \<Rightarrow> None
           | Some (Inl e, w2) \<Rightarrow> Some (Inl e, w2)
           | Some (Inr eps, w2) \<Rightarrow> episode_loop E X cfg log_dir attempts (initial eps) w2))"
  unfolding main_try_def initial_def ..

lemma main_after_startup:
  assumes "load_config X = Inr cfg" "startup X w = (Inr u, w1)"
    "main_try E X cfg log_dir attempts w1 = Some (r, w2)"
  shows "main E X log_dir attempts w =
     (let w3 = snd (close main_sim_ci (snd (close main_agent_ci w2)))
      in case r of
           Inl (InvalidSubmission e) \<Rightarrow> Some (Inl (InvalidSubmission e), w3)
         | Inl e \<Rightarrow> Some (Inl (InvalidEvaluator e), w3)
         | Inr st \<Rightarrow> Some (report_scores X st w3))"
  by (simp add: main_def assms)

lemma main_too_many:
  assumes "load_config X = Inr cfg" "max_failures cfg \<le> 0"
    and "startup X w = (Inr u, w1)" and "seed_peers E cfg w1 = (Inr u', w2)"
    and "get_episodes E main_sm_ci (episodes_per_scenario cfg) (seed cfg) w2 = Some (Inr eps, w3)"
    and "eps \<noteq> []"
  shows "main E X log_dir attempts w =
           Some (Inl (InvalidEvaluator (TooManyFailures 0)),
                 snd (close main_sim_ci (snd (close main_agent_ci w3))))"
proof -
  have "episode_loop E X cfg log_dir attempts (initial eps) w3 = Some (Inl (TooManyFailures 0), w3)"
    using episode_loop_too_many[of "initial eps" cfg E X log_dir attempts w3] assms(2,6)
    by (simp add: initial_def)
  then have "main_try E X cfg log_dir attempts w1 = Some (Inl (TooManyFailures 0), w3)"
    by (simp add: main_try_initial assms(4,5))
  from main_after_startup[OF assms(1,3) this] show ?thesis by (simp add: Let_def)
qed

lemmas main_eval_defs = startup_def get_node_protocol_def
  check_compatibility_between_agent_and_sim_def lookup_def bind_sum_def lift_def
  and_then_def return_def raise_def seed_peers_def write_topic_and_expect_def
  write_topic_and_expect_zero_def get_episodes_def close_def has_topic_def Let_def
  example_collaborators_def example_config_def example_sim_protocol_def example_agent_protocol_def
  short_env_def initial_world_def

lemma eval_startup: "fst (startup (example_collaborators 0 ''JPGImage'') initial_world) = Inr ()"
  by (simp add: main_eval_defs)

lemma eval_seed_peers: "fst (seed_peers short_env (example_config 0)
     (snd (startup (example_collaborators 0 ''JPGImage'') initial_world))) = Inr ()"
  by (simp add: main_eval_defs)

lemma eval_get_episodes: "map_option fst (get_episodes short_env ''scenario_maker'' 2 42
     (snd (seed_peers short_env (example_config 0)
     (snd (startup (example_collaborators 0 ''JPGImage'') initial_world))))) =
     Some (Inr [EpisodeSpec ''loop-0'' loop_scenario, EpisodeSpec ''loop-1'' loop_scenario])"
  by (simp add: main_eval_defs iterate_scenarios.simps episodes_of_def string_of_nat.simps upt_rec loop_scenario_def)

lemma eval_get_episodes_initial: "map_option fst (get_episodes short_env ''scenario_maker'' 2 42 initial_world) =
     Some (Inr [EpisodeSpec ''loop-0'' loop_scenario, EpisodeSpec ''loop-1'' loop_scenario])"
  by (simp add: main_eval_defs iterate_scenarios.simps episodes_of_def string_of_nat.simps upt_rec)
  (simp add: loop_scenario_def)

lemma run_episode_returns:
  assumes "episode_setup E sim_ci ags nm sc w = (Inr u, w0)"
    and "continued n E sim_ci (playable_robots sc) (not_playable_robots sc)
          (playable_robots2agent sc ags) dt L 0 (fzero E) w0 = Some (t, w1)"
    and "fge E t L \<and> w' = w1 \<or>
         \<not> fge E t L \<and> iteration E sim_ci (playable_robots sc) (not_playable_robots sc)
           (playable_robots2agent sc ags) dt 0 t w1 = (Inr Break, w')"
  shows "run_episode E sim_ci ags dt nm sc L w = Some (Inr t, w')"
  using stops_step_loop[OF assms(2,3)] assms(1) by (simp add: run_episode_def)

lemma step_loop_raises:
  assumes "continued n E sim_ci pl npl r2a dt L k t0 w0 = Some (t, w1)"
    and "\<not> fge E t L" and "iteration E sim_ci pl npl r2a dt k t w1 = (Inl e, w')"
  shows "step_loop E sim_ci pl npl r2a dt L k t0 w0 = Some (Inl e, w')"
  using assms
proof (induction n arbitrary: t0 w0)
  case 0
  then have eq: "t = t0" "w1 = w0" by simp_all
  from 0(2,3) show ?case unfolding eq by (subst step_loop.simps) simp
next
  case (Suc n)
  from Suc(2) have nf: "\<not> fge E t0 L" by (simp split: if_splits)
  obtain r w2 where it: "iteration E sim_ci pl npl r2a dt k t0 w0 = (r, w2)"
    by (cases "iteration E sim_ci pl npl r2a dt k t0 w0")
  from Suc(2) nf it obtain t1 where r: "r = Inr (Continue t1)"
    and c: "continued n E sim_ci pl npl r2a dt L k t1 w2 = Some (t, w1)"
    by (auto split: sum.splits loop_ctl.splits)
  have "step_loop E sim_ci pl npl r2a dt L k t0 w0 = step_loop E sim_ci pl npl r2a dt L k t1 w2"
    by (subst step_loop.simps) (simp add: nf it r)
  with Suc(1)[OF c Suc(3) Suc(4)] show ?case by simp
qed

lemma run_episode_raises:
  assumes "episode_setup E sim_ci ags nm sc w = (Inr u, w0)"
    and "continued n E sim_ci (playable_robots sc) (not_playable_robots sc)
          (playable_robots2agent sc ags) dt L 0 (fzero E) w0 = Some (t, w1)"
    and "\<not> fge E t L"
    and "iteration E sim_ci (playable_robots sc) (not_playable_robots sc)
           (playable_robots2agent sc ags) dt 0 t w1 = (Inl e, w')"
  shows "run_episode E sim_ci ags dt nm sc L w = Some (Inl e, w')"
  using step_loop_raises[OF assms(2,3,4)] assms(1) by (simp add: run_episode_def)

lemma episode_attempt_eval:
  assumes "prepare_attempt (log_dir @ [episode_name (hd (episodes st))])
            (attempts @ [episode_name (hd (episodes st)) @ ''.attempt'' @ string_of_nat (attempt_i st)])
            ((attempts @ [episode_name (hd (episodes st)) @ ''.attempt'' @ string_of_nat (attempt_i st)]) @ [''log.gs2.cbor.tmp''])
            [main_agent_ci] (hd (episodes st)) w = (Inr u, w1)"
    and "run_episode E main_sim_ci [main_agent_ci] (physics_dt cfg) (episode_name (hd (episodes st)))
             (scenario (hd (episodes st))) (episode_length_s cfg) w1 = Some (r, w2)"
  shows "episode_attempt E X cfg log_dir attempts st w =
     Some (and_then (rename ((attempts @ [episode_name (hd (episodes st)) @ ''.attempt'' @ string_of_nat (attempt_i st)]) @ [''log.gs2.cbor.tmp''])
                            ((attempts @ [episode_name (hd (episodes st)) @ ''.attempt'' @ string_of_nat (attempt_i st)]) @ [''log.gs2.cbor''])) (\<lambda>_.
                         case r of
                           Inl e \<Rightarrow> raise e
                         | Inr length_s \<Rightarrow> evaluate_attempt E X cfg (log_dir @ [episode_name (hd (episodes st))])
            (attempts @ [episode_name (hd (episodes st)) @ ''.attempt'' @ string_of_nat (attempt_i st)])
            ((attempts @ [episode_name (hd (episodes st)) @ ''.attempt'' @ string_of_nat (attempt_i st)]) @ [''log.gs2.cbor'']) st length_s) w2)"
  unfolding episode_attempt_def Let_def assms(1) prod.case sum.case assms(2) option.case ..

lemma optI: "map_option fst x = Some a \<Longrightarrow> x = Some (a, snd (the x))"
  by (cases x) auto

section \<open>Start-up and clean-up of main\<close>












section \<open>Claims about main\<close>

text \<open>
  Claim C10. If \<^verbatim>\<open>max_failures\<close> is zero or negative and the scenario maker yields at least
  one episode, \<^verbatim>\<open>main\<close> raises the too-many-failures error (wrapped as
  \<^verbatim>\<open>InvalidEvaluator\<close> by the handler of the \<^verbatim>\<open>try\<close> block) with the counter at 0, and
  the world it leaves is the world after \<^verbatim>\<open>get_episodes\<close> with the agent and simulator
  channels closed: the check at the top of the loop runs before the first attempt, so no
  attempt directory is made and no episode message is sent.
\<close>

theorem zero_max_failures:
  assumes "load_config X = Inr cfg" and "max_failures cfg \<le> 0"
    and "startup X w = (Inr (), w1)" and "seed_peers E cfg w1 = (Inr (), w2)"
    and "get_episodes E main_sm_ci (episodes_per_scenario cfg) (seed cfg) w2 = Some (Inr eps, w3)"
    and "eps \<noteq> []"
  shows "main E X log_dir attempts w =
           Some (Inl (InvalidEvaluator (TooManyFailures 0)),
                 snd (close main_sim_ci (snd (close main_agent_ci w3))))"
  by (rule main_too_many[OF assms])

theorem zero_max_failures_witness:
  "max_failures (example_config 0) \<le> 0 \<and>
   map_option fst (get_episodes short_env ''scenario_maker'' 2 42
     (snd (seed_peers short_env (example_config 0)
     (snd (startup (example_collaborators 0 ''JPGImage'') initial_world))))) =
     Some (Inr [EpisodeSpec ''loop-0'' loop_scenario, EpisodeSpec ''loop-1'' loop_scenario]) \<and>
   map_option fst (main short_env (example_collaborators 0 ''JPGImage'') [''episodes''] [''attempts''] initial_world) =
     Some (Inl (InvalidEvaluator (TooManyFailures 0))) \<and>
   map_option (\<lambda>x. list_ex (has_topic ''clear'') (trace (snd x)))
     (main short_env (example_collaborators 0 ''JPGImage'') [''episodes''] [''attempts''] initial_world) =
     Some False \<and>
   map_option (\<lambda>x. fs (snd x) [''attempts'', ''loop-0.attempt0''])
     (main short_env (example_collaborators 0 ''JPGImage'') [''episodes''] [''attempts''] initial_world) =
     Some None"
proof -
  let ?X = "example_collaborators 0 ''JPGImage''"
  let ?cfg = "example_config 0"
  let ?w1 = "snd (startup ?X initial_world)"
  let ?w2 = "snd (seed_peers short_env ?cfg ?w1)"
  let ?g = "get_episodes short_env ''scenario_maker'' 2 42 ?w2"
  let ?eps = "[EpisodeSpec ''loop-0'' loop_scenario, EpisodeSpec ''loop-1'' loop_scenario]"
  let ?w3 = "snd (the ?g)"
  have lc: "load_config ?X = Inr ?cfg" by (simp add: example_collaborators_def)
  have mx: "max_failures ?cfg \<le> 0" by (simp add: example_config_def)
  have st: "startup ?X initial_world = (Inr (), ?w1)" by (rule pairI[OF eval_startup])
  have sd: "seed_peers short_env ?cfg ?w1 = (Inr (), ?w2)" by (rule pairI[OF eval_seed_peers])
  have ge: "get_episodes short_env ''scenario_maker'' (episodes_per_scenario ?cfg) (seed ?cfg) ?w2 = Some (Inr ?eps, ?w3)"
    using optI[OF eval_get_episodes] by (simp add: example_config_def)
  have ne: "?eps \<noteq> []" by simp
  from zero_max_failures[OF lc mx st sd ge ne, of "[''episodes'']" "[''attempts'']"]
  have m: "main short_env ?X [''episodes''] [''attempts''] initial_world =
      Some (Inl (InvalidEvaluator (TooManyFailures 0)), snd (close ''simulator'' (snd (close ''agent'' ?w3))))" .
  have tr: "list_ex (has_topic ''clear'') (trace (snd (close ''simulator'' (snd (close ''agent'' ?w3))))) = False"
    by (simp add: main_eval_defs iterate_scenarios.simps)
  have f: "fs (snd (close ''simulator'' (snd (close ''agent'' ?w3)))) [''attempts'', ''loop-0.attempt0''] = None"
    by (simp add: main_eval_defs iterate_scenarios.simps append_file_def)
  show ?thesis unfolding m using mx eval_get_episodes tr f by simp
qed






end
